theory Spec2Isabelle
  imports
    Main
    "HOL-Library.AList"
    "HOL-Library.Char_ord"
    "HOL-Library.List_Lexorder"
    "HOL-Library.Multiset"
    "HOL-Library.Sublist"
begin

unbundle bit_operations_syntax

section \<open>Go strings and the standard-library functions the programs call\<close>

text \<open>
  A Go \<^verbatim>\<open>string\<close> is a sequence of bytes, and so is a HOL \<^typ>\<open>string\<close>: a list of
  8-bit characters. Comparison of Go strings is bytewise lexicographic; this is the order
  that \<^theory_text>\<open>Char_ord\<close> and \<^theory_text>\<open>List_Lexorder\<close> put on \<^typ>\<open>string\<close>, so
  \<^verbatim>\<open>sort.Strings\<close> is \<^const>\<open>sort\<close>: the one ascending permutation of its argument.
\<close>

fun strings_Join :: "string list \<Rightarrow> string \<Rightarrow> string" where
  "strings_Join [] sep = []"
| "strings_Join [x] sep = x"
| "strings_Join (x # y # ys) sep = x @ sep @ strings_Join (y # ys) sep"

subsection \<open>\<^verbatim>\<open>url.QueryEscape\<close>\<close>

definition isAlnum :: "char \<Rightarrow> bool" where
  "isAlnum c \<longleftrightarrow>
     (CHR ''a'' \<le> c \<and> c \<le> CHR ''z'') \<or> (CHR ''A'' \<le> c \<and> c \<le> CHR ''Z'')
       \<or> (CHR ''0'' \<le> c \<and> c \<le> CHR ''9'')"

text \<open>\<^verbatim>\<open>shouldEscape(c, encodeQueryComponent)\<close>: only the unreserved bytes stay.\<close>

definition shouldEscape :: "char \<Rightarrow> bool" where
  "shouldEscape c \<longleftrightarrow> \<not> (isAlnum c \<or> c \<in> set ''-_.~'')"

definition upperhex :: string where
  "upperhex = ''0123456789ABCDEF''"

definition escapeByte :: "char \<Rightarrow> string" where
  "escapeByte c =
     (if shouldEscape c then
        (if c = CHR '' '' then ''+''
         else [CHR ''%'', upperhex ! (of_char c div 16), upperhex ! (of_char c mod 16)])
      else [c])"

definition url_QueryEscape :: "string \<Rightarrow> string" where
  "url_QueryEscape s = concat (map escapeByte s)"

subsection \<open>\<^verbatim>\<open>base64.StdEncoding.EncodeToString\<close>\<close>

definition encodeStd :: string where
  "encodeStd = ''ABCDEFGHIJKLMNOPQRSTUVWXYZabcdefghijklmnopqrstuvwxyz0123456789+/''"

definition sextet :: "int \<Rightarrow> char" where
  "sextet v = encodeStd ! nat (v mod 64)"

fun base64_EncodeToString :: "string \<Rightarrow> string" where
  "base64_EncodeToString (a # b # c # rest) =
     (let v = of_char a * 65536 + of_char b * 256 + of_char c
      in [sextet (v div 262144), sextet (v div 4096), sextet (v div 64), sextet v]
           @ base64_EncodeToString rest)"
| "base64_EncodeToString [a, b] =
     (let v = of_char a * 65536 + of_char b * 256
      in [sextet (v div 262144), sextet (v div 4096), sextet (v div 64), CHR ''=''])"
| "base64_EncodeToString [a] =
     (let v = of_char a * 65536
      in [sextet (v div 262144), sextet (v div 4096), CHR ''='', CHR ''=''])"
| "base64_EncodeToString [] = []"

subsection \<open>\<^verbatim>\<open>crypto/sha256\<close> and \<^verbatim>\<open>crypto/hmac\<close>\<close>

text \<open>
  SHA-256 as FIPS 180-4 gives it and HMAC as RFC 2104 gives it. A \<^verbatim>\<open>uint32\<close> is an
  \<^typ>\<open>int\<close> in \<open>0 ..< 2^32\<close>, with the wrap-around of every addition written out.
  The round constants and the initial hash value are written in decimal.
\<close>

type_synonym uint32 = int

definition K256 :: "uint32 list" where
  "K256 =
    [1116352408, 1899447441, 3049323471, 3921009573, 961987163, 1508970993,
     2453635748, 2870763221, 3624381080, 310598401, 607225278, 1426881987,
     1925078388, 2162078206, 2614888103, 3248222580, 3835390401, 4022224774,
     264347078, 604807628, 770255983, 1249150122, 1555081692, 1996064986,
     2554220882, 2821834349, 2952996808, 3210313671, 3336571891, 3584528711,
     113926993, 338241895, 666307205, 773529912, 1294757372, 1396182291,
     1695183700, 1986661051, 2177026350, 2456956037, 2730485921, 2820302411,
     3259730800, 3345764771, 3516065817, 3600352804, 4094571909, 275423344,
     430227734, 506948616, 659060556, 883997877, 958139571, 1322822218,
     1537002063, 1747873779, 1955562222, 2024104815, 2227730452, 2361852424,
     2428436474, 2756734187, 3204031479, 3329325298]"

definition init256 :: "uint32 list" where
  "init256 =
    [1779033703, 3144134277, 1013904242, 2773480762, 1359893119, 2600822924,
     528734635, 1541459225]"

definition add32 :: "uint32 \<Rightarrow> uint32 \<Rightarrow> uint32" where
  "add32 x y = (x + y) mod 4294967296"

definition not32 :: "uint32 \<Rightarrow> uint32" where
  "not32 x = 4294967295 - x"

definition shr :: "nat \<Rightarrow> uint32 \<Rightarrow> uint32" where
  "shr n x = x div 2 ^ n"

definition rotr :: "nat \<Rightarrow> uint32 \<Rightarrow> uint32" where
  "rotr n x = x div 2 ^ n + (x mod 2 ^ n) * 2 ^ (32 - n)"

definition be32 :: "string \<Rightarrow> uint32" where
  "be32 bs = foldl (\<lambda>acc b. acc * 256 + of_char b) 0 bs"

fun words_of :: "string \<Rightarrow> uint32 list" where
  "words_of (a # b # c # d # bs) = be32 [a, b, c, d] # words_of bs"
| "words_of bs = []"

text \<open>
  The message schedule is kept as a window of sixteen words: \<open>w ! 0\<close> is the word of the
  current round, and the word sixteen rounds later is computed from the window.
\<close>

definition next_w :: "uint32 list \<Rightarrow> uint32" where
  "next_w w =
     (let v1 = w ! 14; v0 = w ! 1
      in add32 (add32 (add32 (rotr 17 v1 XOR rotr 19 v1 XOR shr 10 v1) (w ! 9))
                      (rotr 7 v0 XOR rotr 18 v0 XOR shr 3 v0)) (w ! 0))"

definition round256 :: "uint32 list \<Rightarrow> uint32 \<Rightarrow> uint32 \<Rightarrow> uint32 list" where
  "round256 s k w =
     (let a = s ! 0; b = s ! 1; c = s ! 2; d = s ! 3; e = s ! 4; f = s ! 5; g = s ! 6; h = s ! 7;
          t1 = add32 (add32 (add32 (add32 h (rotr 6 e XOR rotr 11 e XOR rotr 25 e))
                 ((e AND f) XOR (not32 e AND g))) k) w;
          t2 = add32 (rotr 2 a XOR rotr 13 a XOR rotr 22 a) ((a AND b) XOR (a AND c) XOR (b AND c))
      in [add32 t1 t2, a, b, c, add32 d t1, e, f, g])"

fun rounds :: "uint32 list \<Rightarrow> uint32 list \<Rightarrow> uint32 list \<Rightarrow> uint32 list" where
  "rounds [] w s = s"
| "rounds (k # ks) w s = rounds ks (tl w @ [next_w w]) (round256 s k (hd w))"

definition block256 :: "uint32 list \<Rightarrow> string \<Rightarrow> uint32 list" where
  "block256 hs p = map2 add32 hs (rounds K256 (words_of p) hs)"

fun blocks256 :: "uint32 list \<Rightarrow> string \<Rightarrow> uint32 list" where
  "blocks256 hs [] = hs"
| "blocks256 hs (b # bs) = blocks256 (block256 hs (take 64 (b # bs))) (drop 64 (b # bs))"

definition byte_of :: "int \<Rightarrow> char" where
  "byte_of v = char_of (v mod 256)"

definition be_bytes4 :: "int \<Rightarrow> string" where
  "be_bytes4 v = [byte_of (v div 16777216), byte_of (v div 65536), byte_of (v div 256), byte_of v]"

definition pad256 :: "string \<Rightarrow> string" where
  "pad256 m =
     (let n = length m; bits = 8 * int n
      in m @ [CHR 0x80] @ replicate ((119 - n mod 64) mod 64) (CHR 0x00)
           @ be_bytes4 (bits div 4294967296) @ be_bytes4 bits)"

definition sha256_Sum256 :: "string \<Rightarrow> string" where
  "sha256_Sum256 m = concat (map be_bytes4 (blocks256 init256 (pad256 m)))"

definition xor_byte :: "int \<Rightarrow> char \<Rightarrow> char" where
  "xor_byte v c = byte_of (of_char c XOR v)"

definition hmac_sha256 :: "string \<Rightarrow> string \<Rightarrow> string" where
  "hmac_sha256 key msg =
     (let k0 = (if length key > 64 then sha256_Sum256 key else key);
          k = k0 @ replicate (64 - length k0) (CHR 0x00)
      in sha256_Sum256 (map (xor_byte 0x5c) k @ sha256_Sum256 (map (xor_byte 0x36) k @ msg)))"

section \<open>The signed item lookup (\<^verbatim>\<open>item-lookup.go\<close>)\<close>

subsection \<open>Data\<close>

text \<open>
  A Go \<^verbatim>\<open>map[string]string\<close> is the list of its entries, in the order in which a
  \<^verbatim>\<open>range\<close> loop visits them. The keys are distinct; the runtime picks the order, so a
  property of the program has to hold for every order. The assignment \<^verbatim>\<open>m[k] = v\<close>
  replaces the value of a key that is present and adds the entry otherwise.
\<close>

type_synonym gomap = "(string \<times> string) list"

definition assign :: "string \<Rightarrow> string \<Rightarrow> gomap \<Rightarrow> gomap" where
  "assign k v m = AList.update k v m"

text \<open>A map literal, and any other sequence of assignments into an empty map.\<close>

definition mapLiteral :: "(string \<times> string) list \<Rightarrow> gomap" where
  "mapLiteral kvs = fold (\<lambda>(k, v). assign k v) kvs []"

record AWSCredentials =
  host :: string
  accessKey :: string
  secret :: string

record AWSQuery =
  host :: string
  accessKey :: string
  params :: gomap

subsection \<open>Signing\<close>

definition signHmacSha256 :: "string \<Rightarrow> string \<Rightarrow> string" where
  "signHmacSha256 data key = url_QueryEscape (base64_EncodeToString (hmac_sha256 key data))"

text \<open>
  \<^verbatim>\<open>newAWSQuery\<close> reads the clock; \<open>now\<close> is what
  \<^verbatim>\<open>time.Now().UTC().Format(time.RFC3339)\<close> returned.
\<close>

definition newAWSQuery :: "string \<Rightarrow> string \<Rightarrow> string \<Rightarrow> AWSQuery" where
  "newAWSQuery now h k =
     \<lparr> AWSQuery.host = h, AWSQuery.accessKey = k,
       params = mapLiteral
         [(''Service'', ''AWSECommerceService''),
          (''Version'', ''2011-08-01''),
          (''AssociateTag'', ''PutYourAssociateTagHere''),
          (''Timestamp'', url_QueryEscape now),
          (''AWSAccessKeyId'', k)] \<rparr>"

text \<open>The three values \<^verbatim>\<open>signRequest\<close> computes, in the order it computes them.\<close>

definition sortedQuery :: "AWSQuery \<Rightarrow> string list" where
  "sortedQuery aws = sort (map (\<lambda>(k, v). k @ ''='' @ v) (params aws))"

definition signString :: "AWSQuery \<Rightarrow> AWSCredentials \<Rightarrow> string" where
  "signString aws cred =
     ''GET'' @ [CHR 0x0A] @ AWSCredentials.host cred @ [CHR 0x0A] @ ''/onca/xml'' @ [CHR 0x0A]
       @ strings_Join (sortedQuery aws) ''&''"

definition signRequest :: "AWSQuery \<Rightarrow> AWSCredentials \<Rightarrow> string \<times> string" where
  "signRequest aws cred =
     (let query = sortedQuery aws;
          signature = signHmacSha256 (signString aws cred) (secret cred)
      in (strings_Join query ''&'', signature))"

subsection \<open>Panics\<close>

text \<open>
  Neither program returns an error value: each failure is a Go panic that ends the run.
  The panics that can occur are a nil-pointer dereference (reading \<^verbatim>\<open>resp.Body\<close> when
  \<^verbatim>\<open>http.Get\<close> returned no response; both programs discard the error of the call),
  \<^verbatim>\<open>panic(err)\<close> with the error of a parser, \<^verbatim>\<open>panic("...")\<close> with a message, a string
  slice out of range and an index out of range. The last value is not a panic of the
  program: \<open>OutsideModel\<close> marks a call of \<^verbatim>\<open>parseItemData\<close> with an item id that this
  description of \<^verbatim>\<open>regexp\<close> does not cover (see the patterns of the second program).
\<close>

datatype panic =
    NilPointerDereference
  | PanicError string
  | PanicMessage string
  | SliceBoundsOutOfRange
  | IndexOutOfRange
  | OutsideModel

subsection \<open>Parsed documents and the path queries of \<^verbatim>\<open>xmlpath\<close>\<close>

text \<open>
  A parsed document is the list of its top-level nodes; a node is an element with its
  children or character data. A \<^verbatim>\<open>*xmlpath.Node\<close> is a place in a document: the document
  and the nodes below the place (the whole document for the root node that
  \<^verbatim>\<open>xmlpath.Parse\<close> returns, one element for a node an iterator yields).
\<close>

datatype xml = Element string "xml list" | CharData string

record node =
  document :: "xml list"
  below :: "xml list"

text \<open>
  The string value of a node is the concatenation of the character data below it, in
  document order.
\<close>

fun text_of :: "xml \<Rightarrow> string" where
  "text_of (CharData s) = s"
| "text_of (Element n cs) = concat (map text_of cs)"

definition Node_String :: "node \<Rightarrow> string" where
  "Node_String n = concat (map text_of (below n))"

text \<open>
  Every path the program compiles is absolute and has one of two shapes, \<^verbatim>\<open>//Name\<close>
  and \<^verbatim>\<open>//Parent/Name\<close>. \<^verbatim>\<open>xmlpath\<close> compiles \<^verbatim>\<open>//Name\<close> to two steps, from the root
  of the document of the context node: every node of the document (the root and its
  descendants), and then the children of that node that are elements called \<open>Name\<close>;
  \<^verbatim>\<open>//Parent/Name\<close> has a third step, the children called \<open>Name\<close> of those children
  called \<open>Parent\<close>. The iterator runs the steps as nested loops, so it yields the
  matches parent by parent: the parents in document order, the children of one parent in
  their order. It skips a node it has yielded before, which never happens here, where a
  node has one parent.
\<close>

datatype path = Anywhere string | AnywhereChild string string

fun named :: "string \<Rightarrow> xml \<Rightarrow> bool" where
  "named x (Element n cs) = (n = x)"
| "named x (CharData s) = False"

fun children :: "xml \<Rightarrow> xml list" where
  "children (Element n cs) = cs"
| "children (CharData s) = []"

text \<open>A node and its descendants, in document order.\<close>

fun subtree :: "xml \<Rightarrow> xml list" where
  "subtree (CharData s) = [CharData s]"
| "subtree (Element n cs) = Element n cs # concat (map subtree cs)"

text \<open>The nodes of a document below its root, in document order.\<close>

definition nodes :: "xml list \<Rightarrow> xml list" where
  "nodes doc = concat (map subtree doc)"

text \<open>
  The first step: for the root and then for every node in document order, the list of
  its children.
\<close>

definition families :: "xml list \<Rightarrow> xml list list" where
  "families doc = doc # map children (nodes doc)"

text \<open>The elements a path selects in a document, in the order the iterator yields them.\<close>

fun matches :: "path \<Rightarrow> xml list \<Rightarrow> xml list" where
  "matches (Anywhere x) doc = concat (map (filter (named x)) (families doc))"
| "matches (AnywhereChild y x) doc =
     concat (map (\<lambda>cs. concat (map (\<lambda>p. filter (named x) (children p)) (filter (named y) cs)))
                 (families doc))"

declare matches.simps [simp del]

definition Path_Iter :: "path \<Rightarrow> node \<Rightarrow> node list" where
  "Path_Iter p n = map (\<lambda>e. \<lparr> document = document n, below = [e] \<rparr>) (matches p (document n))"

text \<open>\<^verbatim>\<open>Path.String\<close>: the string value of the first match, and whether there is one.\<close>

definition Path_String :: "path \<Rightarrow> node \<Rightarrow> string \<times> bool" where
  "Path_String p n = (case Path_Iter p n of [] \<Rightarrow> ('''', False) | m # ms \<Rightarrow> (Node_String m, True))"

subsection \<open>\<^verbatim>\<open>lookupItem\<close>, \<^verbatim>\<open>parseItemAttributes\<close> and \<^verbatim>\<open>main\<close>\<close>

record ItemAttributes =
  author :: "string list"
  binding :: string
  ean :: string
  edition :: string
  isbn :: string
  pages :: string
  publicationDate :: string
  publisher :: string
  title :: string
  price :: string
  priceCurrency :: string

text \<open>The request \<^verbatim>\<open>lookupItem\<close> builds, and its URL.\<close>

definition lookupQuery :: "string \<Rightarrow> AWSCredentials \<Rightarrow> string \<Rightarrow> AWSQuery" where
  "lookupQuery now cred itemId =
     (let q = newAWSQuery now (AWSCredentials.host cred) (AWSCredentials.accessKey cred);
          q = q\<lparr>params := assign ''Operation'' ''ItemLookup'' (params q)\<rparr>;
          q = q\<lparr>params := assign ''ItemId'' itemId (params q)\<rparr>;
          q = q\<lparr>params := assign ''ResponseGroup'' ''ItemAttributes'' (params q)\<rparr>
      in q)"

definition requestURL :: "string \<Rightarrow> AWSCredentials \<Rightarrow> string \<Rightarrow> string" where
  "requestURL now cred itemId =
     (let (query, signature) = signRequest (lookupQuery now cred itemId) cred
      in ''http://'' @ AWSCredentials.host cred @ ''/onca/xml'' @ ''?'' @ query
           @ ''&Signature='' @ signature)"

text \<open>
  The network and the XML parser are outside the program. \<^verbatim>\<open>http.Get\<close> returns a
  response and an error: \<open>get url\<close> is that pair. The response is \<open>None\<close> for Go's
  \<^verbatim>\<open>nil\<close>, and otherwise its body, which is a reader: reading it gives the bytes of the
  body or fails with an error (as it does for the closed body of the response that
  \<^verbatim>\<open>http.Get\<close> returns together with the error of a redirect it did not follow). The
  error is \<open>None\<close> when the GET completed. \<open>parse bytes\<close> is the document that
  \<^verbatim>\<open>xmlpath.Parse\<close> builds from the bytes it has read, or its error; an error of the
  reader is the error of \<^verbatim>\<open>xmlpath.Parse\<close>.
\<close>

type_synonym reader = "string + string"

type_synonym response = "reader option"

definition xmlpath_Parse :: "(string \<Rightarrow> string + xml list) \<Rightarrow> reader \<Rightarrow> string + xml list" where
  "xmlpath_Parse parse r = (case r of Inl err \<Rightarrow> Inl err | Inr bytes \<Rightarrow> parse bytes)"

text \<open>
  \<^verbatim>\<open>lookupItem\<close> binds the error of \<^verbatim>\<open>http.Get\<close> to the blank identifier and reads
  \<^verbatim>\<open>resp.Body\<close>.
\<close>

definition lookupItem ::
  "(string \<Rightarrow> response \<times> string option) \<Rightarrow> (string \<Rightarrow> string + xml list) \<Rightarrow> string \<Rightarrow>
   AWSCredentials \<Rightarrow> string \<Rightarrow> panic + node" where
  "lookupItem get parse now cred itemId =
     (let (resp, _) = get (requestURL now cred itemId)
      in case resp of
           None \<Rightarrow> Inl NilPointerDereference
         | Some body \<Rightarrow>
             (case xmlpath_Parse parse body of
                Inl err \<Rightarrow> Inl (PanicError err)
              | Inr root \<Rightarrow> Inr \<lparr> document = root, below = root \<rparr>))"

text \<open>The loop over the author iterator.\<close>

fun appendAuthors :: "node list \<Rightarrow> string list \<Rightarrow> string list" where
  "appendAuthors [] acc = acc"
| "appendAuthors (a # auths) acc = appendAuthors auths (acc @ [Node_String a])"

definition parseItemAttributes :: "node \<Rightarrow> ItemAttributes" where
  "parseItemAttributes n =
     \<lparr> author = appendAuthors (Path_Iter (Anywhere ''Author'') n) [],
       binding = fst (Path_String (Anywhere ''Binding'') n),
       ean = fst (Path_String (Anywhere ''EAN'') n),
       edition = fst (Path_String (Anywhere ''Edition'') n),
       isbn = fst (Path_String (Anywhere ''ISBN'') n),
       pages = fst (Path_String (Anywhere ''NumberOfPages'') n),
       publicationDate = fst (Path_String (Anywhere ''PublicationDate'') n),
       publisher = fst (Path_String (Anywhere ''Publisher'') n),
       title = fst (Path_String (Anywhere ''Title'') n),
       price = fst (Path_String (AnywhereChild ''ListPrice'' ''Amount'') n),
       priceCurrency = fst (Path_String (AnywhereChild ''ListPrice'' ''CurrencyCode'') n) \<rparr>"

text \<open>
  \<^verbatim>\<open>main\<close>, from the lookup to the attributes it prints: the first
  \<^verbatim>\<open>ItemAttributes\<close> block is handed to \<^verbatim>\<open>parseItemAttributes\<close>, and there is a panic
  when the document has none.
\<close>

definition main_lookup ::
  "(string \<Rightarrow> response \<times> string option) \<Rightarrow> (string \<Rightarrow> string + xml list) \<Rightarrow> string \<Rightarrow>
   AWSCredentials \<Rightarrow> string \<Rightarrow> panic + ItemAttributes" where
  "main_lookup get parse now cred itemId =
     (case lookupItem get parse now cred itemId of
        Inl p \<Rightarrow> Inl p
      | Inr itemXml \<Rightarrow>
          (case Path_Iter (Anywhere ''ItemAttributes'') itemXml of
             [] \<Rightarrow> Inl (PanicMessage ''Cannot parse response! [Wrong credentials?]'')
           | n # ns \<Rightarrow> Inr (parseItemAttributes n)))"

text \<open>
  A value is in percent-escaped form when it consists of unreserved bytes, \<open>+\<close> and
  escape triplets \<open>%XX\<close> with upper-case hexadecimal digits: the form of every result
  of \<^verbatim>\<open>url.QueryEscape\<close>.
\<close>

definition isUpperHex :: "char \<Rightarrow> bool" where
  "isUpperHex c \<longleftrightarrow> c \<in> set upperhex"

fun isEscaped :: "string \<Rightarrow> bool" where
  "isEscaped [] = True"
| "isEscaped (c # cs) =
     (if c = CHR ''%'' then
        (case cs of
           h # l # rest \<Rightarrow> isUpperHex h \<and> isUpperHex l \<and> isEscaped rest
         | _ \<Rightarrow> False)
      else (c = CHR ''+'' \<or> \<not> shouldEscape c) \<and> isEscaped cs)"

section \<open>The wish-list export (the second program, \<^verbatim>\<open>aws-wishlist-export\<close>)\<close>

subsection \<open>Regular expressions\<close>

text \<open>
  The patterns of the program use literal bytes, the dot (any character but newline),
  \<^verbatim>\<open>\s\<close>, one character class, the greedy repetitions \<^verbatim>\<open>*\<close> and \<^verbatim>\<open>+\<close> and the lazy
  \<^verbatim>\<open>*?\<close> of a single character, and capture groups that are not nested. A compiled
  pattern is the list of its items. Every literal and class is ASCII and every run of
  dots ends at an ASCII byte, so matching byte by byte finds the spans that matching
  UTF-8 character by character finds.
\<close>

datatype atom = Lit char | Dot | Space | Ranges "(char \<times> char) list"

datatype item = One atom | Star atom | Plus atom | LazyStar atom | Open | Close

type_synonym regex = "item list"

fun accepts :: "atom \<Rightarrow> char \<Rightarrow> bool" where
  "accepts (Lit x) c = (c = x)"
| "accepts Dot c = (c \<noteq> CHR 0x0A)"
| "accepts Space c = (c \<in> set [CHR 0x09, CHR 0x0A, CHR 0x0C, CHR 0x0D, CHR '' ''])"
| "accepts (Ranges rs) c = (\<exists>(lo, hi) \<in> set rs. lo \<le> c \<and> c \<le> hi)"

definition literal :: "string \<Rightarrow> regex" where
  "literal s = map (\<lambda>c. One (Lit c)) s"

text \<open>
  \<^verbatim>\<open>regexp\<close> returns the match a backtracking search finds first. \<open>run r s i caps\<close> is
  that search for the items \<open>r\<close> at the input \<open>s\<close>, which starts at byte \<open>i\<close> of the
  text: a greedy repetition tries one more character before it tries the rest of the
  pattern, a lazy one tries the rest first. The result is the end of the match and the
  positions at which groups were opened and closed.
\<close>

fun run :: "regex \<Rightarrow> string \<Rightarrow> int \<Rightarrow> int list \<Rightarrow> (int \<times> int list) option" where
  "run [] s i caps = Some (i, caps)"
| "run (One a # r) [] i caps = None"
| "run (One a # r) (c # cs) i caps = (if accepts a c then run r cs (i + 1) caps else None)"
| "run (Star a # r) [] i caps = run r [] i caps"
| "run (Star a # r) (c # cs) i caps =
     (if accepts a c then
        (case run (Star a # r) cs (i + 1) caps of
           Some m \<Rightarrow> Some m
         | None \<Rightarrow> run r (c # cs) i caps)
      else run r (c # cs) i caps)"
| "run (Plus a # r) [] i caps = None"
| "run (Plus a # r) (c # cs) i caps =
     (if accepts a c then run (Star a # r) cs (i + 1) caps else None)"
| "run (LazyStar a # r) [] i caps = run r [] i caps"
| "run (LazyStar a # r) (c # cs) i caps =
     (case run r (c # cs) i caps of
        Some m \<Rightarrow> Some m
      | None \<Rightarrow> if accepts a c then run (LazyStar a # r) cs (i + 1) caps else None)"
| "run (Open # r) s i caps = run r s i (caps @ [i])"
| "run (Close # r) s i caps = run r s i (caps @ [i])"

text \<open>The leftmost match at or after byte \<open>i\<close>: its start, its end and its groups.\<close>

fun search :: "regex \<Rightarrow> string \<Rightarrow> int \<Rightarrow> (int \<times> int \<times> int list) option" where
  "search r [] i = (case run r [] i [] of Some (e, caps) \<Rightarrow> Some (i, e, caps) | None \<Rightarrow> None)"
| "search r (c # cs) i =
     (case run r (c # cs) i [] of
        Some (e, caps) \<Rightarrow> Some (i, e, caps)
      | None \<Rightarrow> search r cs (i + 1))"

definition substr :: "string \<Rightarrow> int \<Rightarrow> int \<Rightarrow> string" where
  "substr s b e = take (nat (e - b)) (drop (nat b) s)"

fun groups :: "string \<Rightarrow> int list \<Rightarrow> string list" where
  "groups s (b # e # caps) = substr s b e # groups s caps"
| "groups s caps = []"

text \<open>Both functions return the empty list for Go's \<^verbatim>\<open>nil\<close>, when nothing matches.\<close>

definition FindStringSubmatch :: "regex \<Rightarrow> string \<Rightarrow> string list" where
  "FindStringSubmatch r s =
     (case search r s 0 of None \<Rightarrow> [] | Some (b, e, caps) \<Rightarrow> substr s b e # groups s caps)"

definition FindStringIndex :: "regex \<Rightarrow> string \<Rightarrow> int list" where
  "FindStringIndex r s = (case search r s 0 of None \<Rightarrow> [] | Some (b, e, caps) \<Rightarrow> [b, e])"

text \<open>
  \<^verbatim>\<open>FindAllStringIndex(s, -1)\<close>: the successive matches that do not overlap. \<open>s\<close> starts
  at byte \<open>i\<close> of the text, no match may start before \<open>resume\<close>, and an empty match at
  the end \<open>prev\<close> of the match before it is dropped.
\<close>

fun allMatches :: "regex \<Rightarrow> string \<Rightarrow> int \<Rightarrow> int \<Rightarrow> int option \<Rightarrow> int list list" where
  "allMatches r [] i resume prev =
     (if i < resume then []
      else (case run r [] i [] of
              Some (e, caps) \<Rightarrow> (if prev = Some i then [] else [[i, e]])
            | None \<Rightarrow> []))"
| "allMatches r (c # cs) i resume prev =
     (if i < resume then allMatches r cs (i + 1) resume prev
      else (case run r (c # cs) i [] of
              None \<Rightarrow> allMatches r cs (i + 1) resume prev
            | Some (e, caps) \<Rightarrow>
                (if e = i then
                   (if prev = Some i then [] else [[i, e]]) @ allMatches r cs (i + 1) (i + 1) (Some e)
                 else [i, e] # allMatches r cs (i + 1) e (Some e))))"

definition FindAllStringIndex :: "regex \<Rightarrow> string \<Rightarrow> int list list" where
  "FindAllStringIndex r s = allMatches r s 0 0 None"

text \<open>
  The slice \<^verbatim>\<open>s[lo:hi]\<close> of a string panics unless \<open>0 \<le> lo \<le> hi \<le> len(s)\<close>.
\<close>

definition slice :: "string \<Rightarrow> int \<Rightarrow> int \<Rightarrow> panic + string" where
  "slice s lo hi =
     (if 0 \<le> lo \<and> lo \<le> hi \<and> hi \<le> int (length s) then Inr (substr s lo hi)
      else Inl SliceBoundsOutOfRange)"

subsection \<open>The patterns\<close>

text \<open>\<^verbatim>\<open>href="/dp/(.+)/ref\<close>\<close>

definition re_dp :: regex where
  "re_dp = literal ''href=\"/dp/'' @ [Open, Plus Dot, Close] @ literal ''/ref''"

text \<open>\<^verbatim>\<open></h5>\s*by (.*)\n\<close>\<close>

definition re_by :: regex where
  "re_by = literal ''</h5>'' @ [Star Space] @ literal ''by '' @ [Open, Star Dot, Close, One (Lit (CHR 0x0A))]"

text \<open>\<^verbatim>\<open>(.*?)\s\((.*?)\)\s*\<close>\<close>

definition re_authAndBind :: regex where
  "re_authAndBind =
     [Open, LazyStar Dot, Close, One Space, One (Lit (CHR ''('')),
      Open, LazyStar Dot, Close, One (Lit (CHR '')'')), Star Space]"

text \<open>\<^verbatim>\<open>title="(.*)" href\<close>\<close>

definition re_title :: regex where
  "re_title = literal ''title=\"'' @ [Open, Star Dot, Close] @ literal ''\" href''"

text \<open>
  \<^verbatim>\<open><div id="itemImage_ITEMID"\<close> and \<^verbatim>\<open><span id="itemPrice_ITEMID"\<close>, where
  \<^verbatim>\<open>ITEMID\<close> is the item's html id. The program splices the id into the text it hands
  to \<^verbatim>\<open>regexp.MustCompile\<close>, so the id is read as part of the pattern. An id of ASCII
  bytes, none of them a metacharacter of \<^verbatim>\<open>regexp\<close> (the bytes \<^verbatim>\<open>regexp.QuoteMeta\<close>
  escapes), stands for itself: the pattern is the literal text. An id with a
  metacharacter makes another pattern (the id \<^verbatim>\<open>.\<close>) or none, in which case
  \<^verbatim>\<open>MustCompile\<close> panics (the id \<^verbatim>\<open>(\<close>); what \<^verbatim>\<open>regexp\<close> makes of it, and of bytes that
  are not ASCII, lies outside the patterns described here. For
  such an id the two functions give \<open>None\<close>, and \<^verbatim>\<open>parseItemData\<close> below stops with
  \<open>OutsideModel\<close> at the place where the program compiles the pattern: the model then
  says nothing about what the program does. \<^verbatim>\<open>main\<close> passes matches of
  \<^verbatim>\<open>[A-Z0-9]+\<close> only, so this never happens in a run of the program (lemmas
  \<open>scanItems_inside_model\<close> and \<open>main_wishlist_inside_model\<close>).
\<close>

definition metachars :: string where
  "metachars = CHR 0x5C # ''.+*?()|[]{}^$''"

definition plain :: "string \<Rightarrow> bool" where
  "plain s = list_all (\<lambda>c. c < CHR 0x80 \<and> c \<notin> set metachars) s"

definition imageMarker :: "string \<Rightarrow> regex" where
  "imageMarker itemid = literal (''<div id=\"itemImage_'' @ itemid @ ''\"'')"

definition priceMarker :: "string \<Rightarrow> regex" where
  "priceMarker itemid = literal (''<span id=\"itemPrice_'' @ itemid @ ''\"'')"

definition re_itemImage :: "string \<Rightarrow> regex option" where
  "re_itemImage itemid = (if plain itemid then Some (imageMarker itemid) else None)"

definition re_itemPrice :: "string \<Rightarrow> regex option" where
  "re_itemPrice itemid = (if plain itemid then Some (priceMarker itemid) else None)"

text \<open>\<^verbatim>\<open><img .*? src="(.*?)"\<close>\<close>

definition re_img :: regex where
  "re_img = literal ''<img '' @ [LazyStar Dot] @ literal '' src=\"'' @ [Open, LazyStar Dot, Close]
              @ literal ''\"''"

text \<open>\<^verbatim>\<open><span .*?>\s*(.*?)\s*</span>\<close>\<close>

definition re_span :: regex where
  "re_span = literal ''<span '' @ [LazyStar Dot] @ literal ''>''
               @ [Star Space, Open, LazyStar Dot, Close, Star Space] @ literal ''</span>''"

text \<open>\<^verbatim>\<open><a id="itemName_([A-Z0-9]+)"\<close>\<close>

definition re_itemName :: regex where
  "re_itemName = literal ''<a id=\"itemName_''
     @ [Open, Plus (Ranges [(CHR ''A'', CHR ''Z''), (CHR ''0'', CHR ''9'')]), Close] @ literal ''\"''"

text \<open>\<^verbatim>\<open><a href="(.*)">\s*Next\<close>\<close>

definition re_next :: regex where
  "re_next = literal ''<a href=\"'' @ [Open, Star Dot, Close] @ literal ''\">'' @ [Star Space]
               @ literal ''Next''"

subsection \<open>\<^verbatim>\<open>parseItemData\<close>\<close>

record WishlistItem =
  amazonId :: string
  author :: string
  binding :: string
  title :: string
  imageUrl :: string
  currency :: string
  price :: string

text \<open>
  The function fills \<^verbatim>\<open>ret\<close> in five steps, in this order. The first three read the
  item fragment and cannot fail; the last two slice the page and can panic. Wherever the
  source reads \<^verbatim>\<open>m[1]\<close> or \<^verbatim>\<open>m[2]\<close> of a submatch list, the list is not empty and holds
  the whole match and one string for each group of the pattern.
\<close>

definition setAmazonId :: "string \<Rightarrow> WishlistItem \<Rightarrow> WishlistItem" where
  "setAmazonId item ret =
     (let awsnum = FindStringSubmatch re_dp item
      in if length awsnum \<noteq> 0 then ret\<lparr>amazonId := awsnum ! 1\<rparr> else ret)"

definition setAuthor :: "string \<Rightarrow> WishlistItem \<Rightarrow> WishlistItem" where
  "setAuthor item ret =
     (let author = FindStringSubmatch re_by item
      in if length author \<noteq> 0 then
           (let authAndBind = FindStringSubmatch re_authAndBind (author ! 1)
            in if length authAndBind = 0 then ret\<lparr>WishlistItem.author := author ! 1\<rparr>
               else ret\<lparr>WishlistItem.author := authAndBind ! 1,
                        WishlistItem.binding := authAndBind ! 2\<rparr>)
         else ret)"

definition setTitle :: "string \<Rightarrow> WishlistItem \<Rightarrow> WishlistItem" where
  "setTitle item ret =
     (let title = FindStringSubmatch re_title item
      in if length title \<noteq> 0 then ret\<lparr>WishlistItem.title := title ! 1\<rparr> else ret)"

definition setImageUrl :: "string \<Rightarrow> string \<Rightarrow> WishlistItem \<Rightarrow> panic + WishlistItem" where
  "setImageUrl page itemid ret =
     (case re_itemImage itemid of
        None \<Rightarrow> Inl OutsideModel
      | Some r \<Rightarrow>
          (let imageDivIdx = FindStringIndex r page
           in if length imageDivIdx \<noteq> 0 then
                (let idx = imageDivIdx ! 1
                 in case slice page idx (idx + 1000) of
                      Inl p \<Rightarrow> Inl p
                    | Inr window \<Rightarrow>
                        (let imgUrl = FindStringSubmatch re_img window
                         in if length imgUrl \<noteq> 0 then Inr (ret\<lparr>imageUrl := imgUrl ! 1\<rparr>)
                            else Inr ret))
              else Inr ret))"

text \<open>
  The currency rule, on the text the span pattern captured: Go compares the first
  \<^emph>\<open>byte\<close> of the text with \<^verbatim>\<open>0xA3\<close> and drops one byte.
\<close>

definition setCurrencyAndPrice :: "string \<Rightarrow> WishlistItem \<Rightarrow> WishlistItem" where
  "setCurrencyAndPrice p ret =
     (if length p > 0 \<and> p ! 0 = CHR 0xA3
      then ret\<lparr>currency := ''GBP'', WishlistItem.price := drop 1 p\<rparr>
      else ret\<lparr>WishlistItem.price := p\<rparr>)"

definition setPrice :: "string \<Rightarrow> string \<Rightarrow> WishlistItem \<Rightarrow> panic + WishlistItem" where
  "setPrice page itemid ret =
     (case re_itemPrice itemid of
        None \<Rightarrow> Inl OutsideModel
      | Some r \<Rightarrow>
          (let imagePriceIdx = FindStringIndex r page
           in if length imagePriceIdx \<noteq> 0 then
                (let idx = imagePriceIdx ! 1
                 in case slice page (idx - 50) (idx + 150) of
                      Inl p \<Rightarrow> Inl p
                    | Inr window \<Rightarrow>
                        (let price = FindStringSubmatch re_span window
                         in if length price \<noteq> 0 then Inr (setCurrencyAndPrice (price ! 1) ret)
                            else Inr ret))
              else Inr ret))"

definition emptyItem :: WishlistItem where
  "emptyItem = \<lparr> amazonId = '''', author = '''', binding = '''', title = '''', imageUrl = '''',
                 currency = '''', price = '''' \<rparr>"

definition parseItemData :: "string \<Rightarrow> string \<Rightarrow> string \<Rightarrow> panic + WishlistItem" where
  "parseItemData page itemid item =
     (case setImageUrl page itemid (setTitle item (setAuthor item (setAmazonId item emptyItem))) of
        Inl p \<Rightarrow> Inl p
      | Inr ret \<Rightarrow> setPrice page itemid ret)"

subsection \<open>\<^verbatim>\<open>getPage\<close> and the loop over the pages\<close>

text \<open>
  \<open>get url\<close> is the body of the response, or \<open>None\<close> when \<^verbatim>\<open>http.Get\<close> returned no
  response; \<open>render body\<close> is the text \<^verbatim>\<open>html.Render\<close> writes for the tree
  \<^verbatim>\<open>html.Parse\<close> built, or the error of \<^verbatim>\<open>html.Parse\<close>.
\<close>

definition getPage ::
  "(string \<Rightarrow> string option) \<Rightarrow> (string \<Rightarrow> string + string) \<Rightarrow> string \<Rightarrow> panic + string" where
  "getPage get render url =
     (case get url of
        None \<Rightarrow> Inl NilPointerDereference
      | Some body \<Rightarrow> (case render body of Inl err \<Rightarrow> Inl (PanicError err) | Inr str \<Rightarrow> Inr str))"

text \<open>The verb \<^verbatim>\<open>%d\<close> of a page number, which is positive.\<close>

fun itoa :: "nat \<Rightarrow> string" where
  "itoa n = (if n < 10 then [''0123456789'' ! n] else itoa (n div 10) @ [''0123456789'' ! (n mod 10)])"

definition pageUrl :: "string \<Rightarrow> nat \<Rightarrow> string" where
  "pageUrl wishlistId pageNo =
     ''http://'' @ ''www.amazon.co.uk'' @ ''/gp/registry/wishlist/'' @ wishlistId @ ''/?page=''
       @ itoa pageNo"

text \<open>
  The inner loop, over the matches \<open>idx\<close> of the item pattern: it prints one line for
  each item before it turns to the next. \<open>out\<close> is what has been printed, as the list of
  the items (the line shows the fields of the item, author and title passed through
  \<^verbatim>\<open>filter\<close>). A panic ends the loop and leaves what was printed.
\<close>

fun scanItems ::
  "string \<Rightarrow> int list list \<Rightarrow> WishlistItem list \<Rightarrow> WishlistItem list \<times> panic option" where
  "scanItems page [] out = (out, None)"
| "scanItems page (y # idx) out =
     (case slice page (y ! 0) (y ! 1 + 1000) of
        Inl p \<Rightarrow> (out, Some p)
      | Inr item \<Rightarrow>
          (let itemid = FindStringSubmatch re_itemName item
           in if length itemid \<le> 1 then (out, Some IndexOutOfRange)
              else (case parseItemData page (itemid ! 1) item of
                      Inl p \<Rightarrow> (out, Some p)
                    | Inr wi \<Rightarrow> scanItems page idx (out @ [wi]))))"

text \<open>
  The loop over the pages has no bound, so it is a partial function: \<open>None\<close> is a run
  that never ends. A run that ends gives the URLs fetched, in order, the items printed,
  and the panic that ended it, if one did.
\<close>

record trace =
  fetched :: "string list"
  printed :: "WishlistItem list"
  panicked :: "panic option"

partial_function (option) pagesFrom ::
  "(string \<Rightarrow> panic + string) \<Rightarrow> string \<Rightarrow> nat \<Rightarrow> string list \<Rightarrow> WishlistItem list \<Rightarrow> trace option"
where
  "pagesFrom fetch wishlistId pageNo urls out =
     (case fetch (pageUrl wishlistId pageNo) of
        Inl p \<Rightarrow>
          Some \<lparr> fetched = urls @ [pageUrl wishlistId pageNo], printed = out, panicked = Some p \<rparr>
      | Inr page \<Rightarrow>
          (case scanItems page (FindAllStringIndex re_itemName page) out of
             (out', Some p) \<Rightarrow>
               Some \<lparr> fetched = urls @ [pageUrl wishlistId pageNo], printed = out',
                      panicked = Some p \<rparr>
           | (out', None) \<Rightarrow>
               (if length (FindStringSubmatch re_next page) = 0
                then Some \<lparr> fetched = urls @ [pageUrl wishlistId pageNo], printed = out',
                            panicked = None \<rparr>
                else pagesFrom fetch wishlistId (pageNo + 1)
                       (urls @ [pageUrl wishlistId pageNo]) out')))"

definition main_wishlist ::
  "(string \<Rightarrow> string option) \<Rightarrow> (string \<Rightarrow> string + string) \<Rightarrow> string \<Rightarrow> trace option" where
  "main_wishlist get render wishlistId = pagesFrom (getPage get render) wishlistId 1 [] []"


declare pagesFrom.simps [code]

subsection \<open>Notions for the statements\<close>

text \<open>The ten single-valued fields, each with the path it is read from.\<close>

definition singleValued :: "(path \<times> (ItemAttributes \<Rightarrow> string)) list" where
  "singleValued =
     [(Anywhere ''Binding'', ItemAttributes.binding),
      (Anywhere ''EAN'', ean),
      (Anywhere ''Edition'', edition),
      (Anywhere ''ISBN'', isbn),
      (Anywhere ''NumberOfPages'', pages),
      (Anywhere ''PublicationDate'', publicationDate),
      (Anywhere ''Publisher'', publisher),
      (Anywhere ''Title'', ItemAttributes.title),
      (AnywhereChild ''ListPrice'' ''Amount'', ItemAttributes.price),
      (AnywhereChild ''ListPrice'' ''CurrencyCode'', priceCurrency)]"

text \<open>The scan of one page, and whether the page has a link to a next page.\<close>

definition scanPage :: "string \<Rightarrow> WishlistItem list \<times> panic option" where
  "scanPage page = scanItems page (FindAllStringIndex re_itemName page) []"

definition hasNext :: "string \<Rightarrow> bool" where
  "hasNext page \<longleftrightarrow> length (FindStringSubmatch re_next page) \<noteq> 0"

text \<open>The number of group brackets of a pattern.\<close>

fun brackets :: "regex \<Rightarrow> nat" where
  "brackets [] = 0"
| "brackets (Open # r) = Suc (brackets r)"
| "brackets (Close # r) = Suc (brackets r)"
| "brackets (x # r) = brackets r"

text \<open>The characters of an item id: capitals and digits.\<close>

definition idChar :: "char \<Rightarrow> bool" where
  "idChar c \<longleftrightarrow> accepts (Ranges [(CHR ''A'', CHR ''Z''), (CHR ''0'', CHR ''9'')]) c"





section \<open>Properties of the signed lookup\<close>

subsection \<open>Sorting and maps\<close>

lemma sort_mset_cong: "mset xs = mset ys \<Longrightarrow> sort xs = sort (ys :: 'a::linorder list)"
  by (metis properties_for_sort sorted_sort mset_sort)

lemma entries_mset:
  assumes "distinct (map fst ps)" and "distinct (map fst qs)" and "map_of ps = map_of qs"
  shows "mset ps = mset qs"
proof -
  have "set ps = set qs"
    using assms by (simp add: map_of_inject_set)
  moreover have "distinct ps" and "distinct qs"
    using assms(1,2) by (auto dest: distinct_map [THEN iffD1])
  ultimately show ?thesis
    by (simp add: set_eq_iff_mset_eq_distinct)
qed

lemma assign_fresh: "k \<notin> fst ` set m \<Longrightarrow> assign k v m = m @ [(k, v)]"
  by (induction m) (auto simp: assign_def)

lemma fold_assign_distinct:
  "distinct (map fst kvs) \<Longrightarrow> fst ` set kvs \<inter> fst ` set acc = {} \<Longrightarrow>
   fold (\<lambda>(k, v). assign k v) kvs acc = acc @ kvs"
proof (induction kvs arbitrary: acc)
  case Nil
  then show ?case by simp
next
  case (Cons kv kvs)
  obtain k v where kv: "kv = (k, v)" by (cases kv)
  have "k \<notin> fst ` set acc"
    using Cons.prems kv by auto
  then have "assign k v acc = acc @ [(k, v)]"
    by (rule assign_fresh)
  with Cons kv show ?case
    by (auto simp: image_Un)
qed

lemma mapLiteral_distinct: "distinct (map fst kvs) \<Longrightarrow> mapLiteral kvs = kvs"
  by (simp add: mapLiteral_def fold_assign_distinct)

subsection \<open>The signature\<close>

lemma hmac_sha256_vector:
  "url_QueryEscape (base64_EncodeToString (hmac_sha256 ''testsecret''
     ''GET\<newline>ecs.amazonaws.co.uk\<newline>/onca/xml\<newline>A=1&B=2''))
   = ''dy9cTdgzkz3TfQdRtR6CPHiNySenbZYgrRTbPtfJs64%3D''"
  by code_simp

text \<open>
  C1. With host \<open>ecs.amazonaws.co.uk\<close>, secret \<open>testsecret\<close> and the parameters
  \<open>A = 1\<close>, \<open>B = 2\<close>, in either order of the map, the string to sign is the method
  \<open>GET\<close>, the host, the path \<open>/onca/xml\<close> and the query \<open>A=1&B=2\<close>, joined by
  newlines; \<^verbatim>\<open>signRequest\<close> returns the query \<open>A=1&B=2\<close> and, as signature, the
  URL-escaped Base64 text of the HMAC-SHA256 of that string under the key
  \<open>testsecret\<close>, which is \<open>dy9cTdgzkz3TfQdRtR6CPHiNySenbZYgrRTbPtfJs64%3D\<close>.
\<close>

theorem signRequest_test_vector:
  assumes "ps = [(''A'', ''1''), (''B'', ''2'')] \<or> ps = [(''B'', ''2''), (''A'', ''1'')]"
    and "aws = \<lparr> AWSQuery.host = h, AWSQuery.accessKey = k, params = ps \<rparr>"
    and "cred = \<lparr> AWSCredentials.host = ''ecs.amazonaws.co.uk'', AWSCredentials.accessKey = a,
                  secret = ''testsecret'' \<rparr>"
    and "toSign = ''GET\<newline>ecs.amazonaws.co.uk\<newline>/onca/xml\<newline>A=1&B=2''"
  shows "signString aws cred = toSign
       \<and> signRequest aws cred =
           (''A=1&B=2'', url_QueryEscape (base64_EncodeToString (hmac_sha256 ''testsecret'' toSign)))
       \<and> signRequest aws cred = (''A=1&B=2'', ''dy9cTdgzkz3TfQdRtR6CPHiNySenbZYgrRTbPtfJs64%3D'')"
proof -
  have q: "sortedQuery aws = [''A=1'', ''B=2'']"
    using assms(1,2) by (auto simp: sortedQuery_def)
  have s: "signString aws cred = toSign"
    using assms(3,4) by (simp add: signString_def q)
  have r: "signRequest aws cred =
      (''A=1&B=2'', url_QueryEscape (base64_EncodeToString (hmac_sha256 ''testsecret'' toSign)))"
    using assms(3) by (simp add: Let_def signRequest_def signHmacSha256_def q s [symmetric])
  moreover have "url_QueryEscape (base64_EncodeToString (hmac_sha256 ''testsecret'' toSign))
      = ''dy9cTdgzkz3TfQdRtR6CPHiNySenbZYgrRTbPtfJs64%3D''"
    unfolding assms(4) by (rule hmac_sha256_vector)
  ultimately have "signRequest aws cred = (''A=1&B=2'', ''dy9cTdgzkz3TfQdRtR6CPHiNySenbZYgrRTbPtfJs64%3D'')"
    by (simp only:)
  with s r show ?thesis
    by (intro conjI)
qed

theorem signRequest_test_vector_witness:
  "signRequest \<lparr> AWSQuery.host = '''', AWSQuery.accessKey = '''', params = [(''B'', ''2''), (''A'', ''1'')] \<rparr>
     \<lparr> AWSCredentials.host = ''ecs.amazonaws.co.uk'', AWSCredentials.accessKey = '''',
       secret = ''testsecret'' \<rparr>
   = (''A=1&B=2'', ''dy9cTdgzkz3TfQdRtR6CPHiNySenbZYgrRTbPtfJs64%3D'')"
  using signRequest_test_vector [where h = "[]" and k = "[]" and a = "[]",
      OF disjI2 [OF refl] refl refl refl, THEN conjunct2, THEN conjunct2] .

text \<open>
  C2. \<^verbatim>\<open>signRequest\<close> depends on the map only through its entries. Let the pairs
  \<open>kvs\<close>, with distinct keys, be assigned into an empty map in two orders, \<open>kvs\<close> and
  \<open>kvs'\<close>, and let \<open>es\<close> and \<open>es'\<close> be orders in which \<^verbatim>\<open>range\<close> visits the two maps
  (two runs on one map when \<open>kvs' = kvs\<close>). Then the two calls return the same query and
  the same signature, and the query is the \<open>key=value\<close> strings in ascending order,
  joined by \<open>&\<close>.
\<close>

theorem signRequest_order_independent:
  assumes "distinct (map fst kvs)" and "mset kvs' = mset kvs"
    and "distinct (map fst es)" and "map_of es = map_of (mapLiteral kvs)"
    and "distinct (map fst es')" and "map_of es' = map_of (mapLiteral kvs')"
  shows "signRequest (aws\<lparr>params := es\<rparr>) cred = signRequest (aws\<lparr>params := es'\<rparr>) cred
       \<and> fst (signRequest (aws\<lparr>params := es\<rparr>) cred)
           = strings_Join (sort (map (\<lambda>(k, v). k @ ''='' @ v) kvs)) ''&''
       \<and> sorted (sort (map (\<lambda>(k, v). k @ ''='' @ v) kvs))"
proof -
  have e: "mset (map fst kvs') = mset (map fst kvs)"
    using assms(2) by simp
  have d': "distinct (map fst kvs')"
    using assms(1) mset_eq_imp_distinct_iff [OF e] by blast
  have l: "mapLiteral kvs = kvs" and l': "mapLiteral kvs' = kvs'"
    using assms(1) d' by (simp_all add: mapLiteral_distinct)
  have "mset es = mset kvs"
    by (rule entries_mset) (use assms(1,3,4) l in simp_all)
  moreover have "mset es' = mset kvs'"
    by (rule entries_mset) (use d' assms(5,6) l' in simp_all)
  ultimately have m: "mset es = mset kvs" "mset es' = mset kvs"
    using assms(2) by simp_all
  let ?f = "\<lambda>(k :: string, v :: string). k @ ''='' @ v"
  have "mset (map ?f es) = mset (map ?f kvs)" and "mset (map ?f es') = mset (map ?f kvs)"
    using m by simp_all
  then have "sort (map ?f es) = sort (map ?f kvs)" and "sort (map ?f es') = sort (map ?f kvs)"
    by (auto intro: sort_mset_cong)
  then have s: "sortedQuery (aws\<lparr>params := es\<rparr>) = sort (map ?f kvs)"
    and s': "sortedQuery (aws\<lparr>params := es'\<rparr>) = sort (map ?f kvs)"
    by (simp_all add: sortedQuery_def)
  show ?thesis
    by (simp add: signRequest_def signString_def s s' Let_def)
qed

theorem signRequest_order_independent_witness:
  "signRequest \<lparr> AWSQuery.host = '''', AWSQuery.accessKey = '''', params = [(''A'', ''1''), (''B'', ''2'')] \<rparr>
       \<lparr> AWSCredentials.host = ''h'', AWSCredentials.accessKey = ''k'', secret = ''s'' \<rparr>
     = signRequest \<lparr> AWSQuery.host = '''', AWSQuery.accessKey = '''', params = [(''B'', ''2''), (''A'', ''1'')] \<rparr>
       \<lparr> AWSCredentials.host = ''h'', AWSCredentials.accessKey = ''k'', secret = ''s'' \<rparr>
   \<and> fst (signRequest \<lparr> AWSQuery.host = '''', AWSQuery.accessKey = '''', params = [(''A'', ''1''), (''B'', ''2'')] \<rparr>
       \<lparr> AWSCredentials.host = ''h'', AWSCredentials.accessKey = ''k'', secret = ''s'' \<rparr>)
     = ''A=1&B=2''"
proof -
  let ?kvs = "[(''B'', ''2''), (''A'', ''1'')]" and ?kvs' = "[(''A'', ''1''), (''B'', ''2'')]"
  let ?aws = "\<lparr> AWSQuery.host = '''', AWSQuery.accessKey = '''', params = [] \<rparr>"
  let ?cred = "\<lparr> AWSCredentials.host = ''h'', AWSCredentials.accessKey = ''k'', secret = ''s'' \<rparr>"
  have 1: "distinct (map fst ?kvs)" by simp
  have 2: "mset ?kvs' = mset ?kvs" by simp
  have 3: "distinct (map fst ?kvs')" by simp
  have 4: "map_of ?kvs' = map_of (mapLiteral ?kvs)"
    by (auto simp: mapLiteral_def assign_def fun_eq_iff)
  have 5: "map_of ?kvs = map_of (mapLiteral ?kvs')"
    by (auto simp: mapLiteral_def assign_def fun_eq_iff)
  note r = signRequest_order_independent [OF 1 2 3 4 1 5, of ?aws ?cred]
  have "fst (signRequest (?aws\<lparr>params := ?kvs'\<rparr>) ?cred) = ''A=1&B=2''"
    using r [THEN conjunct2, THEN conjunct1] by simp
  with r [THEN conjunct1] show ?thesis
    by simp
qed

subsection \<open>The ways the lookup ends\<close>

text \<open>
  The lookup, from the request to the attributes, ends in one of four ways, and the
  response alone decides in which.
\<close>

lemma main_lookup_outcomes:
  "main_lookup get parse now cred itemId =
     (case fst (get (requestURL now cred itemId)) of
        None \<Rightarrow> Inl NilPointerDereference
      | Some body \<Rightarrow>
          (case xmlpath_Parse parse body of
             Inl err \<Rightarrow> Inl (PanicError err)
           | Inr root \<Rightarrow>
               (case matches (Anywhere ''ItemAttributes'') root of
                  [] \<Rightarrow> Inl (PanicMessage ''Cannot parse response! [Wrong credentials?]'')
                | e # es \<Rightarrow> Inr (parseItemAttributes \<lparr> document = root, below = [e] \<rparr>))))"
  by (simp add: main_lookup_def lookupItem_def Path_Iter_def
      split: prod.splits option.splits sum.splits list.splits)

text \<open>
  C3 (the program breaks it). \<^verbatim>\<open>lookupItem\<close> does not look at the error of
  \<^verbatim>\<open>http.Get\<close>. When the GET cannot be completed and there is no response (the
  connection is refused), the program reads the body of the nil response and ends in
  the nil-pointer panic of the runtime: the network error is lost, and the failure is
  not one the program raises. When the GET fails and there is a response (a redirect
  that is not followed leaves the last response, its body closed), and when the body
  cannot be read to its end, the program ends in \<^verbatim>\<open>panic(err)\<close> with the error of the
  XML parser: the failure of a response that is not XML. And whatever the response, the
  run ends as it would have ended had \<^verbatim>\<open>http.Get\<close> returned no error.
\<close>

theorem lookupItem_discards_get_error:
  "main_lookup (\<lambda>url. (None, Some ''dial tcp: connection refused'')) parse now cred itemId
     = Inl NilPointerDereference
 \<and> main_lookup (\<lambda>url. (Some (Inl ''http: read on closed response body''),
                          Some ''stopped after 10 redirects'')) parse now cred itemId
     = Inl (PanicError ''http: read on closed response body'')
 \<and> main_lookup (\<lambda>url. (Some (Inl ''unexpected EOF''), None)) parse now cred itemId
     = Inl (PanicError ''unexpected EOF'')
 \<and> main_lookup (\<lambda>url. (Some (Inr ''<a''), None)) (\<lambda>bytes. Inl ''XML syntax error'') now cred itemId
     = Inl (PanicError ''XML syntax error'')
 \<and> main_lookup (\<lambda>url. (resp, Some err)) parse now cred itemId
     = main_lookup (\<lambda>url. (resp, None)) parse now cred itemId"
  by (simp add: main_lookup_outcomes xmlpath_Parse_def)

subsection \<open>Escaping of the parameter values\<close>

lemma of_char_less_256: "(of_char c :: nat) < 256"
proof -
  have "(of_char c :: nat) mod 256 < 256"
    by simp
  then show ?thesis
    by (simp only: of_char_mod_256)
qed

lemma isUpperHex_nth: "n < 16 \<Longrightarrow> isUpperHex (upperhex ! n)"
  unfolding isUpperHex_def by (rule nth_mem) (simp add: upperhex_def)

lemma shouldEscape_percent: "\<not> shouldEscape c \<Longrightarrow> c \<noteq> CHR ''%''"
  by (auto simp: shouldEscape_def isAlnum_def)

lemma isEscaped_escapeByte: "isEscaped (escapeByte c @ rest) = isEscaped rest"
proof -
  have "(of_char c :: nat) div 16 < 16" and "(of_char c :: nat) mod 16 < 16"
    using of_char_less_256 [of c] by (simp_all add: less_mult_imp_div_less)
  then show ?thesis
    by (auto simp: escapeByte_def isUpperHex_nth dest: shouldEscape_percent)
qed

lemma isEscaped_QueryEscape: "isEscaped (url_QueryEscape s)"
  unfolding url_QueryEscape_def
  by (induction s) (simp_all add: isEscaped_escapeByte del: isEscaped.simps(2))

lemma params_lookupQuery:
  "params (lookupQuery now cred itemId) =
     [(''Service'', ''AWSECommerceService''),
      (''Version'', ''2011-08-01''),
      (''AssociateTag'', ''PutYourAssociateTagHere''),
      (''Timestamp'', url_QueryEscape now),
      (''AWSAccessKeyId'', AWSCredentials.accessKey cred),
      (''Operation'', ''ItemLookup''),
      (''ItemId'', itemId),
      (''ResponseGroup'', ''ItemAttributes'')]"
  by (simp add: lookupQuery_def newAWSQuery_def mapLiteral_def assign_def Let_def)

text \<open>
  What does hold of the values: the constants and the timestamp are in escaped form, so
  the whole map is when the access key and the item id happen to be.
\<close>

lemma lookupQuery_values_escaped:
  assumes "isEscaped itemId" and "isEscaped (AWSCredentials.accessKey cred)"
  shows "list_all (\<lambda>(k, v). isEscaped v) (params (lookupQuery now cred itemId))"
proof -
  have c: "isEscaped ''AWSECommerceService''" "isEscaped ''2011-08-01''"
    "isEscaped ''PutYourAssociateTagHere''" "isEscaped ''ItemLookup''" "isEscaped ''ItemAttributes''"
    by (code_simp+)
  show ?thesis
    by (simp only: params_lookupQuery list.pred_inject case_prod_conv c assms
        isEscaped_QueryEscape simp_thms)
qed

text \<open>
  C7 (the program breaks it). \<^verbatim>\<open>lookupItem\<close> puts the item id into the map as it is:
  for the id \<open>0262033844,0262510871\<close> (two items in one request) the value of \<open>ItemId\<close>
  is that text, with its comma, which is not in escaped form; \<^verbatim>\<open>url.QueryEscape\<close>, which
  the program applies to the timestamp only, would have made it
  \<open>0262033844%2C0262510871\<close>. The query that is signed and sent has the raw comma.
\<close>

theorem lookupQuery_itemId_not_escaped:
  "map_of (params (lookupQuery now cred ''0262033844,0262510871'')) ''ItemId''
     = Some ''0262033844,0262510871''
 \<and> \<not> isEscaped ''0262033844,0262510871''
 \<and> url_QueryEscape ''0262033844,0262510871'' = ''0262033844%2C0262510871''
 \<and> ''ItemId=0262033844,0262510871'' \<in> set (sortedQuery (lookupQuery now cred ''0262033844,0262510871''))"
proof -
  have "\<not> isEscaped ''0262033844,0262510871''"
    by code_simp
  moreover have "url_QueryEscape ''0262033844,0262510871'' = ''0262033844%2C0262510871''"
    by code_simp
  ultimately show ?thesis
    by (simp add: params_lookupQuery sortedQuery_def)
qed

subsection \<open>The order of the iterator\<close>

text \<open>
  The iterator yields every element a path selects, and yields it once: the elements
  called \<open>x\<close> it yields for \<^verbatim>\<open>//x\<close> are, as a multiset, the elements called \<open>x\<close> of
  the document.
\<close>

lemma matches_Anywhere: "matches (Anywhere x) doc = filter (named x) (concat (families doc))"
  by (simp add: matches.simps filter_concat)

lemma concat_map_concat:
  "concat (map (\<lambda>xs. concat (map g (filter P xs))) xss) = concat (map g (concat (map (filter P) xss)))"
  by (induction xss) simp_all

lemma matches_AnywhereChild:
  "matches (AnywhereChild y x) doc
     = concat (map (\<lambda>p. filter (named x) (children p)) (matches (Anywhere y) doc))"
  by (simp add: matches.simps concat_map_concat)

lemma mset_children_list:
  assumes "\<And>c. c \<in> set cs \<Longrightarrow> mset (concat (map children (subtree c))) + {#c#} = mset (subtree c)"
  shows "mset (concat (map children (concat (map subtree cs)))) + mset cs
       = mset (concat (map subtree cs))"
  using assms
proof (induction cs)
  case Nil
  then show ?case by simp
next
  case (Cons c cs)
  have a: "mset (concat (map children (subtree c))) + {#c#} = mset (subtree c)"
    using Cons.prems by simp
  have b: "mset (concat (map children (concat (map subtree cs)))) + mset cs
       = mset (concat (map subtree cs))"
    using Cons by simp
  have "mset (concat (map children (concat (map subtree (c # cs))))) + mset (c # cs)
      = (mset (concat (map children (subtree c))) + {#c#})
        + (mset (concat (map children (concat (map subtree cs)))) + mset cs)"
    by (simp add: ac_simps)
  also have "\<dots> = mset (subtree c) + mset (concat (map subtree cs))"
    by (simp only: a b)
  finally show ?case
    by simp
qed

lemma mset_children_subtree:
  "mset (concat (map children (subtree t))) + {#t#} = mset (subtree t)"
proof (induction t)
  case (Element n cs)
  have "mset (concat (map children (subtree (Element n cs)))) + {#Element n cs#}
      = (mset (concat (map children (concat (map subtree cs)))) + mset cs) + {#Element n cs#}"
    by (simp add: ac_simps)
  also have "\<dots> = mset (concat (map subtree cs)) + {#Element n cs#}"
    by (simp only: mset_children_list [of cs, OF Element.IH])
  finally show ?case
    by simp
next
  case (CharData s)
  then show ?case by simp
qed

lemma mset_families: "mset (concat (families doc)) = mset (nodes doc)"
proof -
  have "mset (concat (families doc))
      = mset (concat (map children (concat (map subtree doc)))) + mset doc"
    by (simp add: families_def nodes_def)
  also have "\<dots> = mset (concat (map subtree doc))"
    by (rule mset_children_list [OF mset_children_subtree])
  finally show ?thesis
    by (simp add: nodes_def)
qed

lemma mset_matches: "mset (matches (Anywhere x) doc) = mset (filter (named x) (nodes doc))"
  by (simp only: matches_Anywhere mset_filter mset_families)

lemma matches_none: "filter (named x) (nodes doc) = [] \<Longrightarrow> matches (Anywhere x) doc = []"
  using mset_matches [of x doc] by simp

lemma matches_one: "filter (named x) (nodes doc) = [e] \<Longrightarrow> matches (Anywhere x) doc = [e]"
  using mset_matches [of x doc] by simp








subsection \<open>The attributes\<close>


lemma Node_String_single: "Node_String \<lparr> document = d, below = [e] \<rparr> = text_of e"
  by (simp add: Node_String_def)

lemma Path_String_matches:
  "fst (Path_String p n) = (case matches p (document n) of [] \<Rightarrow> '''' | e # es \<Rightarrow> text_of e)"
  by (simp add: Path_String_def Path_Iter_def Node_String_single split: list.split)

lemma Path_String_absent:
  "filter (named x) (nodes (document n)) = [] \<Longrightarrow> fst (Path_String (Anywhere x) n) = ''''"
  by (simp add: Path_String_matches matches_none)

lemma Path_String_present:
  "filter (named x) (nodes (document n)) = [e] \<Longrightarrow> fst (Path_String (Anywhere x) n) = text_of e"
  by (simp add: Path_String_matches matches_one)

lemma Path_String_child_absent:
  "filter (named y) (nodes (document n)) = [] \<Longrightarrow> fst (Path_String (AnywhereChild y x) n) = ''''"
  by (simp add: Path_String_matches matches_AnywhereChild matches_none)

lemma Path_String_child_present:
  "filter (named y) (nodes (document n)) = [q] \<Longrightarrow>
     fst (Path_String (AnywhereChild y x) n)
       = (case filter (named x) (children q) of [] \<Rightarrow> '''' | e # es \<Rightarrow> text_of e)"
  by (simp add: Path_String_matches matches_AnywhereChild matches_one)

text \<open>
  C8. \<^verbatim>\<open>parseItemAttributes\<close> is total: for every node of every document it returns a
  record. Each single-valued field is the text of the first element the iterator of its
  path yields, and the empty string when it yields none. So a field read from \<^verbatim>\<open>//x\<close>
  is empty when the document has no element called \<open>x\<close>, and is the text of that
  element when it has one; the price and its currency, read from
  \<^verbatim>\<open>//ListPrice/x\<close>, are empty when the document has no \<open>ListPrice\<close> element, and
  when it has one they are the text of its first child called \<open>x\<close>, or empty without
  such a child. A document that holds a title element and nothing else gives the title
  and leaves every other field empty.
\<close>

theorem parseItemAttributes_partial:
  "(\<forall>(p, field) \<in> set singleValued.
      field (parseItemAttributes n)
        = (case matches p (document n) of [] \<Rightarrow> '''' | e # es \<Rightarrow> text_of e))
 \<and> (\<forall>(p, field) \<in> set singleValued. \<forall>x. p = Anywhere x \<longrightarrow>
      (filter (named x) (nodes (document n)) = [] \<longrightarrow> field (parseItemAttributes n) = '''')
    \<and> (\<forall>e. filter (named x) (nodes (document n)) = [e] \<longrightarrow>
           field (parseItemAttributes n) = text_of e))
 \<and> (\<forall>(p, field) \<in> set singleValued. \<forall>y x. p = AnywhereChild y x \<longrightarrow>
      (filter (named y) (nodes (document n)) = [] \<longrightarrow> field (parseItemAttributes n) = '''')
    \<and> (\<forall>q. filter (named y) (nodes (document n)) = [q] \<longrightarrow>
           field (parseItemAttributes n)
             = (case filter (named x) (children q) of [] \<Rightarrow> '''' | e # es \<Rightarrow> text_of e)))
 \<and> parseItemAttributes \<lparr> document = [Element ''Title'' [CharData t]], below = b \<rparr>
     = \<lparr> ItemAttributes.author = [], ItemAttributes.binding = '''', ean = '''', edition = '''', isbn = '''', pages = '''',
         publicationDate = '''', publisher = '''', ItemAttributes.title = t,
         ItemAttributes.price = '''', priceCurrency = '''' \<rparr>"
proof (intro conjI)
  show "\<forall>(p, field) \<in> set singleValued.
      field (parseItemAttributes n)
        = (case matches p (document n) of [] \<Rightarrow> '''' | e # es \<Rightarrow> text_of e)"
    by (simp add: singleValued_def parseItemAttributes_def Path_String_matches)
  show "\<forall>(p, field) \<in> set singleValued. \<forall>x. p = Anywhere x \<longrightarrow>
      (filter (named x) (nodes (document n)) = [] \<longrightarrow> field (parseItemAttributes n) = '''')
    \<and> (\<forall>e. filter (named x) (nodes (document n)) = [e] \<longrightarrow>
           field (parseItemAttributes n) = text_of e)"
    by (simp add: singleValued_def parseItemAttributes_def Path_String_absent Path_String_present)
  show "\<forall>(p, field) \<in> set singleValued. \<forall>y x. p = AnywhereChild y x \<longrightarrow>
      (filter (named y) (nodes (document n)) = [] \<longrightarrow> field (parseItemAttributes n) = '''')
    \<and> (\<forall>q. filter (named y) (nodes (document n)) = [q] \<longrightarrow>
           field (parseItemAttributes n)
             = (case filter (named x) (children q) of [] \<Rightarrow> '''' | e # es \<Rightarrow> text_of e))"
    by (simp add: singleValued_def parseItemAttributes_def Path_String_child_absent
        Path_String_child_present)
  show "parseItemAttributes \<lparr> document = [Element ''Title'' [CharData t]], below = b \<rparr>
     = \<lparr> ItemAttributes.author = [], ItemAttributes.binding = '''', ean = '''', edition = '''', isbn = '''', pages = '''',
         publicationDate = '''', publisher = '''', ItemAttributes.title = t,
         ItemAttributes.price = '''', priceCurrency = '''' \<rparr>"
    by (simp add: parseItemAttributes_def Path_String_matches Path_Iter_def matches.simps
        families_def nodes_def)
qed

theorem parseItemAttributes_partial_witness:
  "ItemAttributes.title (parseItemAttributes
      \<lparr> document = [Element ''ItemAttributes'' [Element ''Title'' [CharData ''Emma'']]],
        below = [] \<rparr>) = ''Emma''
 \<and> ItemAttributes.binding (parseItemAttributes
      \<lparr> document = [Element ''ItemAttributes'' [Element ''Title'' [CharData ''Emma'']]],
        below = [] \<rparr>) = ''''
 \<and> ItemAttributes.price (parseItemAttributes
      \<lparr> document = [Element ''ItemAttributes'' [Element ''Title'' [CharData ''Emma'']]],
        below = [] \<rparr>) = ''''"
proof -
  let ?n = "\<lparr> document = [Element ''ItemAttributes'' [Element ''Title'' [CharData ''Emma'']]],
               below = [] \<rparr>"
  note r = parseItemAttributes_partial [of ?n "''''" "[]"]
  have t: "(Anywhere ''Title'', ItemAttributes.title) \<in> set singleValued"
    and b: "(Anywhere ''Binding'', ItemAttributes.binding) \<in> set singleValued"
    and p: "(AnywhereChild ''ListPrice'' ''Amount'', ItemAttributes.price) \<in> set singleValued"
    by (simp_all add: singleValued_def)
  have ft: "filter (named ''Title'') (nodes (document ?n)) = [Element ''Title'' [CharData ''Emma'']]"
    and fb: "filter (named ''Binding'') (nodes (document ?n)) = []"
    and fp: "filter (named ''ListPrice'') (nodes (document ?n)) = []"
    by (simp_all add: nodes_def)
  have "ItemAttributes.title (parseItemAttributes ?n) = ''Emma''"
    using r [THEN conjunct2, THEN conjunct1, THEN bspec, OF t] ft by simp
  moreover have "ItemAttributes.binding (parseItemAttributes ?n) = []"
    using r [THEN conjunct2, THEN conjunct1, THEN bspec, OF b] fb by simp
  moreover have "ItemAttributes.price (parseItemAttributes ?n) = []"
    using r [THEN conjunct2, THEN conjunct2, THEN conjunct1, THEN bspec, OF p] fp by simp
  ultimately show ?thesis
    by (intro conjI)
qed




section \<open>Properties of the wish-list export\<close>

subsection \<open>The matcher\<close>

text \<open>
  A match does not end before it starts, it ends inside the text, and it records one
  position for every group bracket of the pattern; so a submatch list that is not empty
  holds the whole match and one string for each group.
\<close>

lemma run_bounds:
  "run r s i caps = Some (e, caps') \<Longrightarrow>
     i \<le> e \<and> e \<le> i + int (length s) \<and> length caps' = length caps + brackets r"
proof (induction r s i caps arbitrary: e caps' rule: run.induct)
  case (1 s i caps)
  then show ?case by simp
next
  case (2 a r i caps)
  then show ?case by simp
next
  case (3 a r c cs i caps)
  then show ?case by (simp split: if_splits)
next
  case (4 a r i caps)
  then show ?case by simp
next
  case (5 a r c cs i caps)
  show ?case
  proof (cases "accepts a c")
    case True
    show ?thesis
    proof (cases "run (Star a # r) cs (i + 1) caps")
      case None
      with True "5.prems" have "run r (c # cs) i caps = Some (e, caps')"
        by simp
      from "5.IH"(2) [OF True None this] show ?thesis
        by simp
    next
      case (Some m)
      with True "5.prems" have "run (Star a # r) cs (i + 1) caps = Some (e, caps')"
        by simp
      from "5.IH"(1) [OF True this] show ?thesis
        by simp
    qed
  next
    case False
    with "5.prems" have "run r (c # cs) i caps = Some (e, caps')"
      by simp
    from "5.IH"(3) [OF False this] show ?thesis
      by simp
  qed
next
  case (6 a r i caps)
  then show ?case by simp
next
  case (7 a r c cs i caps)
  show ?case
  proof (cases "accepts a c")
    case True
    with "7.prems" have "run (Star a # r) cs (i + 1) caps = Some (e, caps')"
      by simp
    from "7.IH" [OF True this] show ?thesis
      by simp
  next
    case False
    with "7.prems" show ?thesis by simp
  qed
next
  case (8 a r i caps)
  then show ?case by simp
next
  case (9 a r c cs i caps)
  show ?case
  proof (cases "run r (c # cs) i caps")
    case None
    with "9.prems" have a: "accepts a c" and "run (LazyStar a # r) cs (i + 1) caps = Some (e, caps')"
      by (simp_all split: if_splits)
    from "9.IH"(2) [OF None a this(2)] show ?thesis
      by simp
  next
    case (Some m)
    with "9.prems" have "run r (c # cs) i caps = Some (e, caps')"
      by simp
    from "9.IH"(1) [OF this] show ?thesis
      by simp
  qed
next
  case (10 r s i caps)
  then show ?case by fastforce
next
  case (11 r s i caps)
  then show ?case by fastforce
qed

lemma search_bounds:
  "search r s i = Some (b, e, caps) \<Longrightarrow>
     i \<le> b \<and> b \<le> e \<and> e \<le> i + int (length s) \<and> length caps = brackets r"
proof (induction s arbitrary: i)
  case Nil
  then show ?case
    by (auto split: option.splits dest: run_bounds)
next
  case (Cons c cs)
  show ?case
  proof (cases "run r (c # cs) i []")
    case None
    with Cons.prems have "search r cs (i + 1) = Some (b, e, caps)"
      by simp
    from Cons.IH [OF this] show ?thesis
      by simp
  next
    case (Some m)
    with Cons.prems run_bounds [of r "c # cs" i "[]" e caps] show ?thesis
      by (cases m) auto
  qed
qed

lemma length_groups: "length (groups s caps) = length caps div 2"
  by (induction s caps rule: groups.induct) simp_all

lemma length_FindStringSubmatch:
  "FindStringSubmatch r s \<noteq> [] \<Longrightarrow> length (FindStringSubmatch r s) = Suc (brackets r div 2)"
  by (auto simp: FindStringSubmatch_def length_groups split: option.splits dest: search_bounds)

lemma FindStringIndex_bounds:
  "FindStringIndex r s \<noteq> [] \<Longrightarrow>
     length (FindStringIndex r s) = 2 \<and> 0 \<le> FindStringIndex r s ! 0
       \<and> FindStringIndex r s ! 0 \<le> FindStringIndex r s ! 1
       \<and> FindStringIndex r s ! 1 \<le> int (length s)"
  by (auto simp: FindStringIndex_def split: option.splits dest: search_bounds)

lemma brackets_literal [simp]: "brackets (literal s @ r) = brackets r" "brackets (literal s) = 0"
  by (induction s) (simp_all add: literal_def)

lemma brackets_patterns:
  "brackets re_dp = 2" "brackets re_by = 2" "brackets re_authAndBind = 4" "brackets re_title = 2"
  "brackets re_img = 2" "brackets re_span = 2" "brackets re_itemName = 2" "brackets re_next = 2"
  by (simp_all add: re_dp_def re_by_def re_authAndBind_def re_title_def re_img_def re_span_def
      re_itemName_def re_next_def)

subsection \<open>The match of the item marker\<close>

text \<open>
  A pattern that starts with literal text matches only an input that starts with the
  text, and goes on behind it.
\<close>

lemma run_literal:
  "run (literal l @ r) s i caps
     = (if prefix l s then run r (drop (length l) s) (i + int (length l)) caps else None)"
proof (induction l arbitrary: s i)
  case Nil
  then show ?case by (simp add: literal_def)
next
  case (Cons x l)
  have IH: "run (map (\<lambda>c. One (Lit c)) l @ r) s i caps
      = (if prefix l s then run r (drop (length l) s) (i + int (length l)) caps else None)" for s i
    using Cons.IH [of s i] by (simp add: literal_def)
  show ?case
  proof (cases s)
    case Nil
    then show ?thesis by (simp add: literal_def)
  next
    case (Cons c cs)
    then show ?thesis
      by (simp add: literal_def IH add.assoc)
  qed
qed

lemma run_literal_append:
  "run (literal l @ r) (l @ t) i caps = run r t (i + int (length l)) caps"
  by (simp add: run_literal)

text \<open>
  A greedy repetition in front of the end of a group takes some characters it accepts,
  and the rest of the pattern matches behind them.
\<close>

lemma run_Star_Close:
  "run (Star a # Close # r) s j caps = Some m \<Longrightarrow>
     \<exists>k \<le> length s. (\<forall>c \<in> set (take k s). accepts a c)
       \<and> run r (drop k s) (j + int k) (caps @ [j + int k]) = Some m"
proof (induction s arbitrary: j)
  case Nil
  then show ?case by simp
next
  case (Cons c cs)
  show ?case
  proof (cases "accepts a c \<and> run (Star a # Close # r) cs (j + 1) caps \<noteq> None")
    case True
    with Cons.prems have "run (Star a # Close # r) cs (j + 1) caps = Some m"
      by auto
    from Cons.IH [OF this] obtain k where k: "k \<le> length cs" "\<forall>c \<in> set (take k cs). accepts a c"
      "run r (drop k cs) (j + 1 + int k) (caps @ [j + 1 + int k]) = Some m"
      by blast
    have "Suc k \<le> length (c # cs)" and "\<forall>x \<in> set (take (Suc k) (c # cs)). accepts a x"
      and "run r (drop (Suc k) (c # cs)) (j + int (Suc k)) (caps @ [j + int (Suc k)]) = Some m"
      using k True by (simp_all add: ac_simps)
    then show ?thesis
      by blast
  next
    case False
    with Cons.prems have "run r (c # cs) j (caps @ [j]) = Some m"
      by (auto split: if_splits option.splits)
    then have "0 \<le> length (c # cs)" and "\<forall>x \<in> set (take 0 (c # cs)). accepts a x"
      and "run r (drop 0 (c # cs)) (j + int 0) (caps @ [j + int 0]) = Some m"
      by simp_all
    then show ?thesis
      by blast
  qed
qed

text \<open>
  When the character behind the group is one the repetition refuses, the repetition
  takes all the characters in front of it.
\<close>

lemma run_Star_Close_Lit:
  assumes "\<forall>c \<in> set g. accepts a c" and "\<not> accepts a q"
  shows "run (Star a # Close # One (Lit q) # r) (g @ q # t) j caps
       = run r t (j + int (length g) + 1) (caps @ [j + int (length g)])"
  using assms(1)
proof (induction g arbitrary: j)
  case Nil
  with assms(2) show ?case by simp
next
  case (Cons c g)
  have "c \<noteq> q"
    using Cons.prems assms(2) by auto
  moreover have "run (Star a # Close # One (Lit q) # r) (g @ q # t) (j + 1) caps
       = run r t (j + 1 + int (length g) + 1) (caps @ [j + 1 + int (length g)])"
    using Cons by simp
  ultimately show ?case
    using Cons.prems by (simp add: ac_simps split: option.split)
qed

text \<open>
  The item marker \<^verbatim>\<open><a id="itemName_([A-Z0-9]+)"\<close> matches at a place exactly when the
  text there is \<^verbatim>\<open><a id="itemName_\<close>, an id of one or more capitals and digits, and
  the quote; the match ends behind the quote and its group is the id.
\<close>

lemma run_itemName:
  "run re_itemName s i [] = Some (e, caps) \<longleftrightarrow>
     (\<exists>g t. s = ''<a id=\"itemName_'' @ g @ ''\"'' @ t \<and> g \<noteq> [] \<and> (\<forall>c \<in> set g. idChar c)
        \<and> e = i + 17 + int (length g) \<and> caps = [i + 16, i + 16 + int (length g)])"
proof
  let ?C = "Ranges [(CHR ''A'', CHR ''Z''), (CHR ''0'', CHR ''9'')]"
  let ?L = "''<a id=\"itemName_''"
  assume m: "run re_itemName s i [] = Some (e, caps)"
  then have p: "prefix ?L s"
    unfolding re_itemName_def run_literal by (simp split: if_splits)
  then obtain s1 where s: "s = ?L @ s1"
    by (auto simp: prefix_def)
  have r: "run ([Open, Plus ?C, Close] @ literal ''\"'') s1 (i + 16) [] = Some (e, caps)"
    using m unfolding re_itemName_def s run_literal_append by simp
  from r obtain c cs where s1: "s1 = c # cs"
    by (cases s1) simp_all
  have c: "accepts ?C c"
    using r s1 by (simp split: if_splits)
  then have "run ([Open, Plus ?C, Close] @ literal ''\"'') (c # cs) (i + 16) []
      = run (Star ?C # Close # literal ''\"'') cs (i + 17) [i + 16]"
    by (simp add: ac_simps)
  with r s1 have r2: "run (Star ?C # Close # literal ''\"'') cs (i + 17) [i + 16] = Some (e, caps)"
    by (simp only:)
  from run_Star_Close [OF r2] obtain k where k: "k \<le> length cs"
    "\<forall>c \<in> set (take k cs). accepts ?C c"
    "run (literal ''\"'') (drop k cs) (i + 17 + int k) ([i + 16] @ [i + 17 + int k]) = Some (e, caps)"
    by blast
  from k(3) run_literal [of "''\"''" "[]" "drop k cs"]
  have q: "prefix ''\"'' (drop k cs)" and e: "e = i + 17 + int k + 1" and caps: "caps = [i + 16, i + 17 + int k]"
    by (simp_all split: if_splits)
  from q obtain t where t: "drop k cs = ''\"'' @ t"
    by (auto simp: prefix_def)
  let ?g = "c # take k cs"
  have "cs = take k cs @ ''\"'' @ t"
    using t append_take_drop_id [of k cs] by simp
  then have "s = ?L @ ?g @ ''\"'' @ t"
    using s s1 by simp
  moreover have "?g \<noteq> []" and "\<forall>c \<in> set ?g. idChar c"
    using c k(2) by (simp_all add: idChar_def)
  moreover have "e = i + 17 + int (length ?g)" and "caps = [i + 16, i + 16 + int (length ?g)]"
    using e caps k(1) by simp_all
  ultimately show "\<exists>g t. s = ?L @ g @ ''\"'' @ t \<and> g \<noteq> [] \<and> (\<forall>c \<in> set g. idChar c)
        \<and> e = i + 17 + int (length g) \<and> caps = [i + 16, i + 16 + int (length g)]"
    by blast
next
  let ?C = "Ranges [(CHR ''A'', CHR ''Z''), (CHR ''0'', CHR ''9'')]"
  let ?L = "''<a id=\"itemName_''"
  assume "\<exists>g t. s = ?L @ g @ ''\"'' @ t \<and> g \<noteq> [] \<and> (\<forall>c \<in> set g. idChar c)
        \<and> e = i + 17 + int (length g) \<and> caps = [i + 16, i + 16 + int (length g)]"
  then obtain g t where s: "s = ?L @ g @ ''\"'' @ t" and g: "g \<noteq> []" "\<forall>c \<in> set g. idChar c"
    and e: "e = i + 17 + int (length g)" and caps: "caps = [i + 16, i + 16 + int (length g)]"
    by blast
  from g(1) obtain c g' where g': "g = c # g'"
    by (cases g) auto
  have a: "\<forall>c \<in> set g'. accepts ?C c" and c: "accepts ?C c"
    using g(2) g' by (simp_all add: idChar_def)
  have n: "\<not> accepts ?C (CHR ''\"'')"
    by simp
  have "run re_itemName s i [] = run ([Open, Plus ?C, Close] @ literal ''\"'') (g @ ''\"'' @ t) (i + 16) []"
    unfolding re_itemName_def s run_literal_append by simp
  also have "\<dots> = run (Star ?C # Close # One (Lit (CHR ''\"'')) # []) (g' @ CHR ''\"'' # t) (i + 17) [i + 16]"
    using c by (simp add: g' literal_def ac_simps)
  also have "\<dots> = run [] t (i + 17 + int (length g') + 1) ([i + 16] @ [i + 17 + int (length g')])"
    by (rule run_Star_Close_Lit [OF a n])
  finally show "run re_itemName s i [] = Some (e, caps)"
    using e caps g' by simp
qed

text \<open>Where the search finds a match, the pattern matches.\<close>

lemma search_sound:
  "search r s i = Some (b, e, caps) \<Longrightarrow>
     \<exists>k \<le> length s. b = i + int k \<and> run r (drop k s) b [] = Some (e, caps)"
proof (induction s arbitrary: i)
  case Nil
  then show ?case by (auto split: option.splits)
next
  case (Cons c cs)
  show ?case
  proof (cases "run r (c # cs) i []")
    case None
    with Cons.prems have "search r cs (i + 1) = Some (b, e, caps)"
      by simp
    from Cons.IH [OF this] obtain k where "k \<le> length cs" "b = i + 1 + int k"
      "run r (drop k cs) b [] = Some (e, caps)"
      by blast
    then have "Suc k \<le> length (c # cs)" and "b = i + int (Suc k)"
      and "run r (drop (Suc k) (c # cs)) b [] = Some (e, caps)"
      by simp_all
    then show ?thesis
      by blast
  next
    case (Some m)
    with Cons.prems have "0 \<le> length (c # cs)" and "b = i + int 0"
      and "run r (drop 0 (c # cs)) b [] = Some (e, caps)"
      by auto
    then show ?thesis
      by blast
  qed
qed



subsection \<open>The scan of a page\<close>

lemma slice_out_of_range: "hi > int (length s) \<Longrightarrow> slice s lo hi = Inl SliceBoundsOutOfRange"
  by (simp add: slice_def)

lemma slice_Inr_iff:
  "slice s lo hi = Inr w \<longleftrightarrow> 0 \<le> lo \<and> lo \<le> hi \<and> hi \<le> int (length s) \<and> w = substr s lo hi"
  by (auto simp: slice_def)

lemma slice_Inl: "slice s lo hi = Inl p \<Longrightarrow> p = SliceBoundsOutOfRange"
  by (auto simp: slice_def split: if_splits)

text \<open>What has been printed stays, and what the loop does next does not depend on it.\<close>

lemma scanItems_out:
  "scanItems page idx out = (out @ fst (scanItems page idx []), snd (scanItems page idx []))"
proof (induction idx arbitrary: out)
  case Nil
  then show ?case by simp
next
  case (Cons y idx)
  show ?case
  proof (cases "slice page (y ! 0) (y ! 1 + 1000)")
    case (Inl p)
    then show ?thesis by simp
  next
    case (Inr fragment)
    show ?thesis
    proof (cases "length (FindStringSubmatch re_itemName fragment) \<le> 1")
      case True
      with Inr show ?thesis by simp
    next
      case False
      show ?thesis
      proof (cases "parseItemData page (FindStringSubmatch re_itemName fragment ! 1) fragment")
        case (Inl p)
        with Inr False show ?thesis by simp
      next
        case (Inr wi)
        have "scanItems page (y # idx) out = scanItems page idx (out @ [wi])" for out
          using \<open>slice page (y ! 0) (y ! 1 + 1000) = Inr fragment\<close> False Inr by simp
        then show ?thesis
          using Cons.IH [of "out @ [wi]"] Cons.IH [of "[wi]"] by simp
      qed
    qed
  qed
qed

lemma scanItems_panic_at:
  assumes "k < length idx" and "idx ! k ! 1 + 1000 > int (length page)"
  shows "(\<exists>p. snd (scanItems page idx out) = Some p)
       \<and> length (fst (scanItems page idx out)) \<le> length out + k"
  using assms
proof (induction idx arbitrary: k out)
  case Nil
  then show ?case by simp
next
  case (Cons y idx)
  show ?case
  proof (cases k)
    case 0
    with Cons.prems have "slice page (y ! 0) (y ! 1 + 1000) = Inl SliceBoundsOutOfRange"
      by (simp add: slice_out_of_range)
    with 0 show ?thesis by simp
  next
    case (Suc j)
    with Cons.prems have j: "j < length idx" "idx ! j ! 1 + 1000 > int (length page)"
      by simp_all
    show ?thesis
    proof (cases "slice page (y ! 0) (y ! 1 + 1000)")
      case (Inl p)
      then show ?thesis by simp
    next
      case (Inr fragment)
      show ?thesis
      proof (cases "length (FindStringSubmatch re_itemName fragment) \<le> 1")
        case True
        with Inr show ?thesis by simp
      next
        case False
        show ?thesis
        proof (cases "parseItemData page (FindStringSubmatch re_itemName fragment ! 1) fragment")
          case (Inl p)
          with \<open>slice page (y ! 0) (y ! 1 + 1000) = Inr fragment\<close> False show ?thesis by simp
        next
          case (Inr wi)
          have "scanItems page (y # idx) out = scanItems page idx (out @ [wi])"
            using \<open>slice page (y ! 0) (y ! 1 + 1000) = Inr fragment\<close> False Inr by simp
          then show ?thesis
            using Cons.IH [OF j, of "out @ [wi]"] Suc by simp
        qed
      qed
    qed
  qed
qed

lemma scanItems_complete:
  assumes "snd (scanItems page idx out) = None"
  shows "(\<forall>y \<in> set idx. 0 \<le> y ! 0 \<and> y ! 0 \<le> y ! 1 + 1000 \<and> y ! 1 + 1000 \<le> int (length page))
       \<and> length (fst (scanItems page idx out)) = length out + length idx"
  using assms
proof (induction idx arbitrary: out)
  case Nil
  then show ?case by simp
next
  case (Cons y idx)
  from Cons.prems obtain fragment where f: "slice page (y ! 0) (y ! 1 + 1000) = Inr fragment"
    by (cases "slice page (y ! 0) (y ! 1 + 1000)") auto
  from Cons.prems f have l: "\<not> length (FindStringSubmatch re_itemName fragment) \<le> 1"
    by (auto split: if_splits)
  from Cons.prems f l obtain wi
    where w: "parseItemData page (FindStringSubmatch re_itemName fragment ! 1) fragment = Inr wi"
    by (cases "parseItemData page (FindStringSubmatch re_itemName fragment ! 1) fragment") auto
  have s: "scanItems page (y # idx) out = scanItems page idx (out @ [wi])"
    using f l w by simp
  with Cons.prems have "snd (scanItems page idx (out @ [wi])) = None"
    by simp
  from Cons.IH [OF this] f s show ?case
    by (simp add: slice_Inr_iff)
qed

subsection \<open>The ids and the fragments of the items\<close>

text \<open>An id of capitals and digits has no metacharacter.\<close>

lemma idChar_plain: "\<forall>c \<in> set g. idChar c \<Longrightarrow> plain g"
proof -
  have "c < CHR 0x80 \<and> c \<notin> set metachars" if "idChar c" for c
  proof -
    from that have "(65 \<le> (of_char c :: nat) \<and> (of_char c :: nat) \<le> 90)
        \<or> (48 \<le> (of_char c :: nat) \<and> (of_char c :: nat) \<le> 57)"
      by (simp add: idChar_def less_eq_char_def)
    then show ?thesis
      by (auto simp: metachars_def less_char_def)
  qed
  then show "\<forall>c \<in> set g. idChar c \<Longrightarrow> plain g"
    by (simp add: plain_def list_all_iff)
qed

text \<open>
  What \<^verbatim>\<open>FindStringSubmatch\<close> returns for the item marker: the match and the id, which
  has no metacharacter.
\<close>

lemma FindStringSubmatch_itemName:
  assumes "FindStringSubmatch re_itemName s \<noteq> []"
  shows "\<exists>g. FindStringSubmatch re_itemName s = [''<a id=\"itemName_'' @ g @ ''\"'', g]
           \<and> g \<noteq> [] \<and> (\<forall>c \<in> set g. idChar c)"
proof -
  define L where "L = ''<a id=\"itemName_''"
  have L: "length L = 16"
    by (simp add: L_def)
  from assms obtain b e caps where f: "search re_itemName s 0 = Some (b, e, caps)"
    by (auto simp: FindStringSubmatch_def split: option.splits)
  from search_sound [OF f] obtain k where k: "k \<le> length s" "b = int k"
    "run re_itemName (drop k s) b [] = Some (e, caps)"
    by auto
  from k(3) obtain g t where d: "drop k s = L @ g @ ''\"'' @ t"
    and g: "g \<noteq> []" "\<forall>c \<in> set g. idChar c"
    and e: "e = b + 17 + int (length g)" and caps: "caps = [b + 16, b + 16 + int (length g)]"
    unfolding run_itemName L_def by blast
  have "substr s b e = take (17 + length g) (drop k s)"
    using k(2) e by (simp add: substr_def nat_add_distrib)
  then have m: "substr s b e = L @ g @ ''\"''"
    by (simp add: d L)
  have "substr s (b + 16) (b + 16 + int (length g)) = take (length g) (drop 16 (drop k s))"
    using k(2) by (simp add: substr_def nat_add_distrib add.commute)
  then have "substr s (b + 16) (b + 16 + int (length g)) = g"
    by (simp add: d L)
  with m f caps have "FindStringSubmatch re_itemName s = [L @ g @ ''\"'', g]"
    by (simp add: FindStringSubmatch_def)
  with g show ?thesis
    unfolding L_def by blast
qed










subsection \<open>\<^verbatim>\<open>parseItemData\<close> inside its windows\<close>

text \<open>
  For an id without metacharacters, \<^verbatim>\<open>parseItemData\<close> returns an item exactly when the
  two windows lie inside the page: the 1000 bytes after the image marker, and the 200
  bytes around the end of the price marker. Otherwise it panics on the slice.
\<close>

lemma setImageUrl_returns:
  assumes "plain itemid"
  shows "(\<exists>wi. setImageUrl page itemid ret = Inr wi) \<longleftrightarrow>
     (FindStringIndex (imageMarker itemid) page \<noteq> [] \<longrightarrow>
        FindStringIndex (imageMarker itemid) page ! 1 + 1000 \<le> int (length page))"
proof (cases "FindStringIndex (imageMarker itemid) page = []")
  case True
  with assms show ?thesis
    by (simp add: setImageUrl_def re_itemImage_def)
next
  case False
  with FindStringIndex_bounds [of "imageMarker itemid" page]
  have "0 \<le> FindStringIndex (imageMarker itemid) page ! 1"
    by simp
  with assms False show ?thesis
    by (auto simp: setImageUrl_def re_itemImage_def slice_def Let_def)
qed

lemma setPrice_returns:
  assumes "plain itemid"
  shows "(\<exists>wi. setPrice page itemid ret = Inr wi) \<longleftrightarrow>
     (FindStringIndex (priceMarker itemid) page \<noteq> [] \<longrightarrow>
        50 \<le> FindStringIndex (priceMarker itemid) page ! 1
      \<and> FindStringIndex (priceMarker itemid) page ! 1 + 150 \<le> int (length page))"
  using assms by (auto simp: setPrice_def re_itemPrice_def slice_def Let_def)

lemma parseItemData_returns:
  assumes "plain itemid"
  shows "(\<exists>wi. parseItemData page itemid item = Inr wi) \<longleftrightarrow>
     (FindStringIndex (imageMarker itemid) page \<noteq> [] \<longrightarrow>
        FindStringIndex (imageMarker itemid) page ! 1 + 1000 \<le> int (length page))
   \<and> (FindStringIndex (priceMarker itemid) page \<noteq> [] \<longrightarrow>
        50 \<le> FindStringIndex (priceMarker itemid) page ! 1
      \<and> FindStringIndex (priceMarker itemid) page ! 1 + 150 \<le> int (length page))"
proof -
  let ?ret = "setTitle item (setAuthor item (setAmazonId item emptyItem))"
  have "(\<exists>wi. parseItemData page itemid item = Inr wi) \<longleftrightarrow>
      (\<exists>ret'. setImageUrl page itemid ?ret = Inr ret') \<and> (\<forall>ret'. \<exists>wi. setPrice page itemid ret' = Inr wi)"
    using setPrice_returns [OF assms, of page] 
    by (cases "setImageUrl page itemid ?ret") (simp_all add: parseItemData_def)
  then show ?thesis
    unfolding setImageUrl_returns [OF assms] setPrice_returns [OF assms] by simp
qed

lemma parseItemData_panic:
  "parseItemData page itemid item = Inl p \<Longrightarrow>
     (if plain itemid then p = SliceBoundsOutOfRange else p = OutsideModel)"
  by (auto simp: parseItemData_def setImageUrl_def setPrice_def re_itemImage_def re_itemPrice_def
      slice_def Let_def split: sum.splits if_splits)

text \<open>
  When it returns, each of the three fields read from the fragment depends on its own
  pattern only, and is empty when the pattern does not match: a fragment without the
  link to the detail page gives an empty \<open>amazonId\<close> and the author, binding and
  title it would give with the link.
\<close>

lemma setImageUrl_keeps:
  "setImageUrl page itemid ret = Inr wi \<Longrightarrow>
     amazonId wi = amazonId ret \<and> WishlistItem.author wi = WishlistItem.author ret
   \<and> WishlistItem.binding wi = WishlistItem.binding ret \<and> WishlistItem.title wi = WishlistItem.title ret
   \<and> currency wi = currency ret \<and> WishlistItem.price wi = WishlistItem.price ret"
  by (auto simp: setImageUrl_def Let_def split: if_splits sum.splits option.splits)

lemma setPrice_keeps:
  "setPrice page itemid ret = Inr wi \<Longrightarrow>
     amazonId wi = amazonId ret \<and> WishlistItem.author wi = WishlistItem.author ret
   \<and> WishlistItem.binding wi = WishlistItem.binding ret \<and> WishlistItem.title wi = WishlistItem.title ret
   \<and> imageUrl wi = imageUrl ret"
  by (auto simp: setPrice_def setCurrencyAndPrice_def Let_def split: if_splits sum.splits option.splits)

lemma parseItemData_fragment_fields:
  assumes "parseItemData page itemid item = Inr wi"
  shows "amazonId wi = (case FindStringSubmatch re_dp item of [] \<Rightarrow> '''' | m # ms \<Rightarrow> (m # ms) ! 1)
       \<and> WishlistItem.title wi
           = (case FindStringSubmatch re_title item of [] \<Rightarrow> '''' | m # ms \<Rightarrow> (m # ms) ! 1)
       \<and> WishlistItem.author wi = WishlistItem.author (setAuthor item emptyItem)
       \<and> WishlistItem.binding wi = WishlistItem.binding (setAuthor item emptyItem)
       \<and> (FindStringSubmatch re_by item = [] \<longrightarrow>
            WishlistItem.author wi = '''' \<and> WishlistItem.binding wi = '''')"
proof -
  let ?ret = "setTitle item (setAuthor item (setAmazonId item emptyItem))"
  from assms obtain ret' where a: "setImageUrl page itemid ?ret = Inr ret'"
    and b: "setPrice page itemid ret' = Inr wi"
    by (auto simp: parseItemData_def split: sum.splits)
  have "amazonId wi = amazonId ?ret" and "WishlistItem.title wi = WishlistItem.title ?ret"
    and "WishlistItem.author wi = WishlistItem.author ?ret"
    and "WishlistItem.binding wi = WishlistItem.binding ?ret"
    using setImageUrl_keeps [OF a] setPrice_keeps [OF b] by simp_all
  then show ?thesis
    by (auto simp: setTitle_def setAuthor_def setAmazonId_def emptyItem_def Let_def
        split: list.splits)
qed

text \<open>An unmatched image or price pattern leaves the field empty as well.\<close>

lemma parseItemData_page_fields:
  assumes "parseItemData page itemid item = Inr wi"
  shows "(FindStringIndex (imageMarker itemid) page = [] \<longrightarrow> imageUrl wi = '''')
       \<and> (FindStringIndex (priceMarker itemid) page = [] \<longrightarrow>
            currency wi = '''' \<and> WishlistItem.price wi = '''')"
proof -
  let ?ret = "setTitle item (setAuthor item (setAmazonId item emptyItem))"
  from assms obtain ret' where a: "setImageUrl page itemid ?ret = Inr ret'"
    and b: "setPrice page itemid ret' = Inr wi"
    by (auto simp: parseItemData_def split: sum.splits)
  have e: "imageUrl ?ret = ''''" "currency ?ret = ''''" "WishlistItem.price ?ret = ''''"
    by (simp_all add: setTitle_def setAuthor_def setAmazonId_def emptyItem_def Let_def)
  have "FindStringIndex (imageMarker itemid) page = [] \<Longrightarrow> ret' = ?ret"
    using a by (simp add: setImageUrl_def re_itemImage_def split: if_splits)
  moreover have "FindStringIndex (priceMarker itemid) page = [] \<Longrightarrow> wi = ret'"
    using b by (simp add: setPrice_def re_itemPrice_def split: if_splits)
  ultimately show ?thesis
    using e setImageUrl_keeps [OF a] setPrice_keeps [OF b] by auto
qed

text \<open>
  The loop hands \<^verbatim>\<open>parseItemData\<close> the id it finds in the fragment, a text of capitals
  and digits: no run of the scan meets an id with a metacharacter.
\<close>

lemma scanItems_inside_model: "snd (scanItems page idx out) \<noteq> Some OutsideModel"
proof (induction idx arbitrary: out)
  case Nil
  then show ?case by simp
next
  case (Cons y idx)
  show ?case
  proof (cases "slice page (y ! 0) (y ! 1 + 1000)")
    case (Inl p)
    with slice_Inl [OF Inl] show ?thesis by simp
  next
    case (Inr fragment)
    show ?thesis
    proof (cases "length (FindStringSubmatch re_itemName fragment) \<le> 1")
      case True
      with Inr show ?thesis by simp
    next
      case False
      then have "FindStringSubmatch re_itemName fragment \<noteq> []"
        by auto
      from FindStringSubmatch_itemName [OF this]
      have i: "plain (FindStringSubmatch re_itemName fragment ! 1)"
        by (auto simp: idChar_plain)
      show ?thesis
      proof (cases "parseItemData page (FindStringSubmatch re_itemName fragment ! 1) fragment")
        case (Inl p)
        with parseItemData_panic [OF Inl] i have "p \<noteq> OutsideModel"
          by simp
        with Inr False Inl show ?thesis by simp
      next
        case (Inr wi)
        with \<open>slice page (y ! 0) (y ! 1 + 1000) = Inr fragment\<close> False Cons.IH [of "out @ [wi]"]
        show ?thesis by simp
      qed
    qed
  qed
qed

subsection \<open>Matching over padding\<close>










subsection \<open>The window of the fragment\<close>



subsection \<open>The loop over the pages\<close>

text \<open>
  While the pages scan without a panic, the loop fetches page after page as long as the
  page it has scanned has a link to a next one, and ends with the first page that has
  none: \<open>n\<close> pages are fetched, in order, and the items of these pages are printed.
\<close>

lemma pagesFrom_run:
  assumes "\<And>k. k < Suc n \<Longrightarrow> fetch (pageUrl w (p + k)) = Inr (pg k)"
    and "\<And>k. k < Suc n \<Longrightarrow> snd (scanPage (pg k)) = None"
    and "\<And>k. k < n \<Longrightarrow> hasNext (pg k)"
    and "\<not> hasNext (pg n)"
  shows "pagesFrom fetch w p urls out =
     Some \<lparr> fetched = urls @ map (\<lambda>k. pageUrl w (p + k)) [0..<Suc n],
            printed = out @ concat (map (\<lambda>k. fst (scanPage (pg k))) [0..<Suc n]),
            panicked = None \<rparr>"
  using assms
proof (induction n arbitrary: p urls out pg)
  case 0
  have f: "fetch (pageUrl w p) = Inr (pg 0)"
    using "0.prems"(1) [of 0] by simp
  have s: "scanItems (pg 0) (FindAllStringIndex re_itemName (pg 0)) out
      = (out @ fst (scanPage (pg 0)), None)"
    using "0.prems"(2) [of 0] scanItems_out [of "pg 0" _ out] by (simp add: scanPage_def)
  have e: "FindStringSubmatch re_next (pg 0) = []"
    using "0.prems"(4) by (simp add: hasNext_def)
  show ?case
    by (subst pagesFrom.simps) (simp add: f s e)
next
  case (Suc n)
  have f: "fetch (pageUrl w p) = Inr (pg 0)"
    using Suc.prems(1) [of 0] by simp
  have s: "scanItems (pg 0) (FindAllStringIndex re_itemName (pg 0)) out
      = (out @ fst (scanPage (pg 0)), None)"
    using Suc.prems(2) [of 0] scanItems_out [of "pg 0" _ out] by (simp add: scanPage_def)
  have e: "FindStringSubmatch re_next (pg 0) \<noteq> []"
    using Suc.prems(3) [of 0] by (simp add: hasNext_def)
  have step: "pagesFrom fetch w p urls out
      = pagesFrom fetch w (p + 1) (urls @ [pageUrl w p]) (out @ fst (scanPage (pg 0)))"
    by (subst pagesFrom.simps) (simp add: f s e)
  have "pagesFrom fetch w (Suc p) (urls @ [pageUrl w p]) (out @ fst (scanPage (pg 0))) =
     Some \<lparr> fetched = (urls @ [pageUrl w p]) @ map (\<lambda>k. pageUrl w (Suc p + k)) [0..<Suc n],
            printed = (out @ fst (scanPage (pg 0)))
              @ concat (map (\<lambda>k. fst (scanPage (pg (Suc k)))) [0..<Suc n]),
            panicked = None \<rparr>"
  proof (rule Suc.IH)
    show "fetch (pageUrl w (Suc p + k)) = Inr (pg (Suc k))" if "k < Suc n" for k
      using Suc.prems(1) [of "Suc k"] that by simp
    show "snd (scanPage (pg (Suc k))) = None" if "k < Suc n" for k
      using Suc.prems(2) [of "Suc k"] that by simp
    show "hasNext (pg (Suc k))" if "k < n" for k
      using Suc.prems(3) [of "Suc k"] that by simp
    show "\<not> hasNext (pg (Suc n))"
      using Suc.prems(4) .
  qed
  moreover have "map (\<lambda>k. pageUrl w (p + k)) [0..<Suc (Suc n)]
      = pageUrl w p # map (\<lambda>k. pageUrl w (Suc p + k)) [0..<Suc n]"
    by (simp add: map_upt_Suc del: upt_Suc)
  moreover have "concat (map (\<lambda>k. fst (scanPage (pg k))) [0..<Suc (Suc n)])
      = fst (scanPage (pg 0)) @ concat (map (\<lambda>k. fst (scanPage (pg (Suc k)))) [0..<Suc n])"
    by (simp add: map_upt_Suc del: upt_Suc)
  ultimately show ?case
    using step by simp
qed

lemma getPage_ok: "get url = Some body \<Longrightarrow> render body = Inr page \<Longrightarrow> getPage get render url = Inr page"
  by (simp add: getPage_def)

text \<open>
  So no run of the program ends outside the patterns described: the panic that ends a
  run is one of the program.
\<close>

lemma pagesFrom_inside_model:
  assumes "pagesFrom fetch w p urls out = Some tr" and "\<forall>url. fetch url \<noteq> Inl OutsideModel"
  shows "panicked tr \<noteq> Some OutsideModel"
proof -
  have "(\<forall>url. fetch url \<noteq> Inl OutsideModel) \<longrightarrow> panicked tr \<noteq> Some OutsideModel"
  proof (rule pagesFrom.raw_induct
      [where P = "\<lambda>fetch w p urls out tr.
         (\<forall>url. fetch url \<noteq> Inl OutsideModel) \<longrightarrow> panicked tr \<noteq> Some OutsideModel",
       OF _ assms(1)], goal_cases)
    case (1 pagesFrom' fetch w p urls out tr)
    show ?case
    proof
      assume f: "\<forall>url. fetch url \<noteq> Inl OutsideModel"
      show "panicked tr \<noteq> Some OutsideModel"
      proof (cases "fetch (pageUrl w p)")
        case (Inl e)
        with 1(2) f show ?thesis
          by auto
      next
        case (Inr page)
        obtain out' e where s: "scanItems page (FindAllStringIndex re_itemName page) out = (out', e)"
          by (cases "scanItems page (FindAllStringIndex re_itemName page) out")
        with scanItems_inside_model [of page "FindAllStringIndex re_itemName page" out]
        have e: "e \<noteq> Some OutsideModel"
          by simp
        show ?thesis
        proof (cases e)
          case None
          with 1 Inr s f show ?thesis
            by (auto split: if_splits)
        next
          case (Some q)
          with 1(2) Inr s e show ?thesis
            by auto
        qed
      qed
    qed
  qed
  with assms(2) show ?thesis
    by simp
qed

lemma main_wishlist_inside_model:
  "main_wishlist get render w = Some tr \<Longrightarrow> panicked tr \<noteq> Some OutsideModel"
  unfolding main_wishlist_def
  by (erule pagesFrom_inside_model) (auto simp: getPage_def split: option.splits sum.splits)

subsection \<open>Where the program departs from the description\<close>

text \<open>The currency rule is a rule on bytes.\<close>

lemma setCurrencyAndPrice_byte:
  "setCurrencyAndPrice (CHR 0xA3 # rest) ret = ret\<lparr>currency := ''GBP'', WishlistItem.price := rest\<rparr>"
  "p = [] \<or> hd p \<noteq> CHR 0xA3 \<Longrightarrow> setCurrencyAndPrice p ret = ret\<lparr>WishlistItem.price := p\<rparr>"
  by (auto simp: setCurrencyAndPrice_def hd_conv_nth)

text \<open>
  C4 (the program breaks it). \<^verbatim>\<open>parseItemData\<close> panics on a page that ends less than
  1000 bytes after the image marker of the item, and on a page where the price marker
  of the item ends less than 50 bytes after the start of the page or less than 150
  bytes before its end: the slices \<^verbatim>\<open>page[idx : idx+1000]\<close> and
  \<^verbatim>\<open>page[idx-50 : idx+150]\<close> are taken without a check.
\<close>

theorem parseItemData_panics:
  "parseItemData ''<html><div id=\"itemImage_I2X\"><img src=\"a.jpg\"/></div></html>'' ''I2X''
     ''<a id=\"itemName_I2X\" title=\"T\" href=\"/dp/1/ref=x\">T</a>''
     = Inl SliceBoundsOutOfRange
 \<and> parseItemData (''<span id=\"itemPrice_I2X\">12.99</span>'' @ replicate 200 (CHR '' '')) ''I2X''
     ''<a id=\"itemName_I2X\" title=\"T\" href=\"/dp/1/ref=x\">T</a>''
     = Inl SliceBoundsOutOfRange"
  by code_simp

text \<open>
  C5 (the program breaks it). The pound sign \<open>U+00A3\<close> is the two bytes \<open>C2 A3\<close> in
  UTF-8, the encoding of the text \<^verbatim>\<open>html.Render\<close> writes. The program compares the
  first byte of the price text with \<open>A3\<close>, so for the price text \<open>C2 A3 12.99\<close> it
  leaves the currency empty and keeps the sign in the price. The sign is recognised, and
  one byte dropped, only when the text starts with the single byte \<open>A3\<close>. A price
  without a sign passes unchanged.
\<close>

theorem parseItemData_pound_sign:
  "parseItemData
     (replicate 50 (CHR '' '') @ ''<span id=\"itemPrice_I2X\" class=\"price\"> ''
        @ [CHR 0xC2, CHR 0xA3] @ ''12.99 </span>'' @ replicate 150 (CHR '' '')) ''I2X'' ''''
     = Inr \<lparr> amazonId = '''', author = '''', binding = '''', title = '''', imageUrl = '''',
             currency = '''', price = [CHR 0xC2, CHR 0xA3] @ ''12.99'' \<rparr>
 \<and> parseItemData
     (replicate 50 (CHR '' '') @ ''<span id=\"itemPrice_I2X\" class=\"price\"> ''
        @ [CHR 0xA3] @ ''12.99 </span>'' @ replicate 150 (CHR '' '')) ''I2X'' ''''
     = Inr \<lparr> amazonId = '''', author = '''', binding = '''', title = '''', imageUrl = '''',
             currency = ''GBP'', price = ''12.99'' \<rparr>
 \<and> parseItemData
     (replicate 50 (CHR '' '') @ ''<span id=\"itemPrice_I2X\" class=\"price\"> ''
        @ ''12.99 </span>'' @ replicate 150 (CHR '' '')) ''I2X'' ''''
     = Inr \<lparr> amazonId = '''', author = '''', binding = '''', title = '''', imageUrl = '''',
             currency = '''', price = ''12.99'' \<rparr>"
  by code_simp

text \<open>
  C6 (the program breaks it). Page 1 of the list holds one item and a link to page 2,
  and page 2 has no link to a next page; but page 1 ends less than 1000 bytes after the
  item marker. The run fetches page 1, panics in the scan before it prints the item, and
  never fetches page 2.
\<close>

theorem main_wishlist_short_page:
  "FindAllStringIndex re_itemName
     ''<html><a id=\"itemName_I2X\" title=\"T\" href=\"/dp/1/ref=x\">T</a><a href=\"/wl?page=2\"> Next</a></html>''
     = [[6, 26]]
 \<and> hasNext
     ''<html><a id=\"itemName_I2X\" title=\"T\" href=\"/dp/1/ref=x\">T</a><a href=\"/wl?page=2\"> Next</a></html>''
 \<and> \<not> hasNext ''<html></html>''
 \<and> main_wishlist
     (\<lambda>url. if url = ''http://www.amazon.co.uk/gp/registry/wishlist/W/?page=1'' then Some ''1''
            else if url = ''http://www.amazon.co.uk/gp/registry/wishlist/W/?page=2'' then Some ''2''
            else None)
     (\<lambda>body. if body = ''1''
        then Inr ''<html><a id=\"itemName_I2X\" title=\"T\" href=\"/dp/1/ref=x\">T</a><a href=\"/wl?page=2\"> Next</a></html>''
        else Inr ''<html></html>'')
     ''W''
   = Some \<lparr> fetched = [''http://www.amazon.co.uk/gp/registry/wishlist/W/?page=1''],
            printed = [], panicked = Some SliceBoundsOutOfRange \<rparr>"
  by code_simp

end
